theory Spec2Isabelle
  imports Main "HOL-Library.Word"
begin

unbundle bit_operations_syntax

text \<open>
  A shallow embedding of the session supervisor of \<^verbatim>\<open>src/server.c\<close> (connection tokens,
  the control pipe, the single-server reconnection controller, the multi-server loop and
  the fallback shell command) and of the mirror test of \<^verbatim>\<open>test/fd_mirror.c\<close> (the wait for
  the thread pool and the five passes). The first part holds the definitions, each
  translated from the C function it is named after; the second part holds the
  properties, numbered C1 to C10.
\<close>

section \<open>Connection tokens (src/server.c)\<close>

text \<open>
  The macros \<^verbatim>\<open>WAYPIPE_PROTOCOL_VERSION\<close>, \<^verbatim>\<open>CONN_UPDATE_BIT\<close>,
  \<^verbatim>\<open>CONN_RECONNECTABLE_BIT\<close> and \<^verbatim>\<open>CONN_FIXED_BIT\<close> come from a header that is not
  part of the sources at hand, so every function that uses them takes their values as a
  parameter. The function \<^verbatim>\<open>conntoken_header\<close> returns \<^verbatim>\<open>uint32_t\<close>: all arithmetic is
  on 32-bit words.
\<close>

record proto_consts =
  WAYPIPE_PROTOCOL_VERSION :: "32 word"
  CONN_UPDATE_BIT :: "32 word"
  CONN_RECONNECTABLE_BIT :: "32 word"
  CONN_FIXED_BIT :: "32 word"

text \<open>\<^verbatim>\<open>struct connection_token\<close>: a 32-bit header and \<^verbatim>\<open>uint32_t key[3]\<close>.\<close>

record connection_token =
  header :: "32 word"
  key :: "32 word \<times> 32 word \<times> 32 word"

definition conntoken_header :: "proto_consts \<Rightarrow> bool \<Rightarrow> bool \<Rightarrow> 32 word" where
  "conntoken_header c reconnectable update =
     (push_bit 16 (WAYPIPE_PROTOCOL_VERSION c)) OR
     (if update then CONN_UPDATE_BIT c else 0) OR
     (if reconnectable then CONN_RECONNECTABLE_BIT c else 0) OR CONN_FIXED_BIT c"

text \<open>
  Sample values for the four macros, used to run the definitions on concrete inputs:
  version 1, FIXED = bit 0, RECONNECTABLE = bit 1, UPDATE = bit 2.
\<close>

definition sample_consts :: proto_consts where
  "sample_consts = \<lparr> WAYPIPE_PROTOCOL_VERSION = 1, CONN_UPDATE_BIT = 4,
     CONN_RECONNECTABLE_BIT = 2, CONN_FIXED_BIT = 1 \<rparr>"

section \<open>C strings and character buffers\<close>

text \<open>
  A \<^verbatim>\<open>char\<close> array is a list of characters of the array's size. A pointer into it is
  the list of the bytes from the pointer on. \<^verbatim>\<open>strcpy(dst + off, src)\<close> copies the bytes of
  \<^verbatim>\<open>src\<close> up to and including the first NUL; a copy that would run past the end of the
  destination array is the fault \<open>Write_Past_End\<close>, a read below the start of an array or
  past its end is the fault \<open>Read_Before_Start\<close> or \<open>Read_Past_End\<close>, and the use of a null
  pointer is \<open>Null_Pointer\<close>.
\<close>

datatype mem_fault = Write_Past_End | Read_Before_Start | Read_Past_End | Null_Pointer

abbreviation NUL :: char where "NUL \<equiv> CHR 0x00"

definition c_str :: "char list \<Rightarrow> char list" where
  "c_str bytes = takeWhile (\<lambda>b. b \<noteq> NUL) bytes"

definition strlen :: "char list \<Rightarrow> nat" where
  "strlen bytes = length (c_str bytes)"

definition strcpy :: "char list \<Rightarrow> nat \<Rightarrow> char list \<Rightarrow> mem_fault + char list" where
  "strcpy dst off src =
     (let s = c_str src @ [NUL] in
      if off + length s \<le> length dst
      then Inr (take off dst @ s @ drop (off + length s) dst)
      else Inl Write_Past_End)"

text \<open>
  The loop of \<^verbatim>\<open>setup_login_shell_command\<close>,
  \<^verbatim>\<open>for (; start-- > 0;) { if (shell[start] == '/') { start++; break; } }\<close>:
  the argument is the value of \<^verbatim>\<open>start\<close> before the test. The test compares the old
  value and decrements in any case, so the loop leaves \<^verbatim>\<open>start = -1\<close> when it runs out
  without finding a slash.
\<close>

fun scan_start :: "char list \<Rightarrow> nat \<Rightarrow> int" where
  "scan_start shell 0 = -1"
| "scan_start shell (Suc n) =
     (if shell ! n = CHR ''/'' then int n + 1 else scan_start shell n)"

text \<open>
  \<^verbatim>\<open>setup_login_shell_command(shell, shellname, login_shell)\<close>. The arguments \<open>shell\<close>
  and \<open>shellname\<close> are the caller's two arrays as they are on entry; \<open>shell_env\<close> is the
  result of \<^verbatim>\<open>getenv("SHELL")\<close> (the bytes at the returned pointer, \<open>None\<close> for a null
  pointer). An environment string is far shorter than \<open>2^31\<close> bytes, so the cast
  \<^verbatim>\<open>(int)strlen(shell_env)\<close> keeps the value. When the scan ends with \<^verbatim>\<open>start = -1\<close>
  the last \<^verbatim>\<open>strcpy\<close> reads from \<^verbatim>\<open>shell - 1\<close>, below the array.
\<close>

definition setup_login_shell_command ::
  "char list \<Rightarrow> char list \<Rightarrow> char list option \<Rightarrow> bool \<Rightarrow> mem_fault + (char list \<times> char list)" where
  "setup_login_shell_command shell shellname shell_env login_shell =
     (case strcpy shellname 0 ''-sh'' of Inl f \<Rightarrow> Inl f | Inr shellname1 \<Rightarrow>
      case strcpy shell 0 ''/bin/sh'' of Inl f \<Rightarrow> Inl f | Inr shell1 \<Rightarrow>
      case shell_env of None \<Rightarrow> Inr (shell1, shellname1) | Some env \<Rightarrow>
        let len = int (strlen env) in
        if len \<ge> 254 then Inr (shell1, shellname1)
        else case strcpy shell1 0 env of Inl f \<Rightarrow> Inl f | Inr shell2 \<Rightarrow>
          if login_shell then
            let start = scan_start shell2 (nat len);
                shellname2 = shellname1[0 := CHR ''-'']
            in if start < 0 then Inl Read_Before_Start
               else (case strcpy shellname2 1 (drop (nat start) shell2) of
                       Inl f \<Rightarrow> Inl f
                     | Inr shellname3 \<Rightarrow> Inr (shell2, shellname3))
          else (case strcpy shellname1 0 shell2 of
                  Inl f \<Rightarrow> Inl f
                | Inr shellname3 \<Rightarrow> Inr (shell2, shellname3)))"

text \<open>An array of 256 bytes with arbitrary non-NUL content, as a fresh stack array may hold.\<close>

definition stack_buf :: "char list" where "stack_buf = replicate 256 (CHR ''?'')"

section \<open>The outside world: system calls and their results\<close>

text \<open>
  The supervisor talks to the operating system. Every call whose result the code
  branches on is an input of the model (a field of an environment record), and every
  call the properties below speak about is recorded in a trace, in program order, with the
  arguments the code passes and the result it got. File descriptors and process ids are
  C \<^verbatim>\<open>int\<close>s. A token write carries the role of the channel it goes to: \<open>Fresh\<close> for the
  channel that is handed to \<^verbatim>\<open>main_interface_loop\<close> as the session's channel,
  \<open>Replacement\<close> for a channel that is sent to a running worker with \<^verbatim>\<open>send_one_fd\<close>.
  Debug messages (\<^verbatim>\<open>wp_debug\<close>) are left out of the trace.
\<close>

datatype channel_role = Fresh | Replacement

datatype syscall =
    Wp_error
  | Sys_connect "char list" int
  | Sys_write_token channel_role int connection_token int
  | Sys_send_one_fd int int int
  | Sys_close int
  | Sys_unlink "char list"
  | Sys_socketpair int int int
  | Sys_fork int
  | Main_interface_loop int int int
  | Check_unclosed_fds
  | Sys_exit int

text \<open>
  How a function of the supervisor ends: it returns a value, the process leaves through
  \<^verbatim>\<open>exit\<close> (a forked child), it is still waiting in \<^verbatim>\<open>poll\<close> when the recorded events
  run out, or it stops on a memory fault.
\<close>

datatype outcome = Returned int | Exited int | Waiting | Faulted mem_fault

abbreviation (input) EXIT_SUCCESS :: int where "EXIT_SUCCESS \<equiv> 0"
abbreviation (input) EXIT_FAILURE :: int where "EXIT_FAILURE \<equiv> 1"

text \<open>\<^verbatim>\<open>sizeof(struct connection_token)\<close>: four 32-bit words.\<close>

abbreviation (input) token_size :: int where "token_size \<equiv> 16"

definition emit :: "'e list \<Rightarrow> 'e list \<times> 'a \<Rightarrow> 'e list \<times> 'a" where
  "emit pre run = (pre @ fst run, snd run)"

text \<open>
  \<^verbatim>\<open>struct sockaddr_un\<close>: the family and the path array, whose size
  \<^verbatim>\<open>sizeof(sockaddr->sun_path)\<close> is the length of the list (108 on Linux).
\<close>

record sockaddr_un =
  sun_family :: "16 word"
  sun_path :: "char list"

definition sample_sockaddr :: sockaddr_un where
  "sample_sockaddr = \<lparr> sun_family = 1, sun_path = replicate 108 (CHR ''?'') \<rparr>"

section \<open>Random keys\<close>

text \<open>
  \<^verbatim>\<open>fill_random_key\<close> multiplies the old key words by 13, 17 and 29, adds the process
  id and the clock, and then reads 12 bytes from \<^verbatim>\<open>/dev/urandom\<close> over the key when
  the device opens. \<open>rnd_urandom = None\<close>: the device did not open; \<open>Some k\<close>: it did, and
  \<open>k\<close> is the content of the key array after the \<^verbatim>\<open>read\<close>.
\<close>

record rand_env =
  rnd_pid :: "32 word"
  rnd_sec :: "32 word"
  rnd_nsec :: "32 word"
  rnd_urandom :: "(32 word \<times> 32 word \<times> 32 word) option"

definition fill_random_key :: "rand_env \<Rightarrow> connection_token \<Rightarrow> connection_token" where
  "fill_random_key e tok =
     (case key tok of (k0, k1, k2) \<Rightarrow>
        let mixed = (k0 * 13 + rnd_pid e, k1 * 17 + (1 + rnd_sec e), k2 * 29 + (1 + rnd_nsec e))
        in tok\<lparr>key := (case rnd_urandom e of None \<Rightarrow> mixed | Some k \<Rightarrow> k)\<rparr>)"

section \<open>Reading a socket path from the control pipe\<close>

text \<open>
  \<^verbatim>\<open>read_sockaddr(control_pipe, sockaddr)\<close>. The first argument is what the pipe has
  to offer: \<open>None\<close> when \<^verbatim>\<open>read\<close> returns -1, \<open>Some bytes\<close> when \<open>bytes\<close> are waiting, of
  which \<^verbatim>\<open>read(control_pipe, path, sizeof(path) - 1)\<close> takes the first 4095 at most. The
  code then sets \<^verbatim>\<open>path[amt] = 0\<close>, so the bytes of \<^verbatim>\<open>path\<close> that are read afterwards are
  the \<open>amt\<close> bytes followed by NUL. The result is the return value, the caller's
  \<^verbatim>\<open>sockaddr\<close> afterwards, the number of bytes taken from the pipe and the error
  messages.
\<close>

definition read_sockaddr ::
  "char list option \<Rightarrow> sockaddr_un \<Rightarrow> mem_fault + (int \<times> sockaddr_un \<times> nat \<times> syscall list)" where
  "read_sockaddr control_pipe sockaddr =
     (case control_pipe of
        None \<Rightarrow> Inr (- 1, sockaddr, 0, [Wp_error])
      | Some waiting \<Rightarrow>
          let amt = min 4095 (length waiting);
              path = take amt waiting @ [NUL]
          in if strlen path \<ge> length (sun_path sockaddr)
             then Inr (- 1, sockaddr, amt, [Wp_error])
             else (case strcpy (sun_path sockaddr) 0 path of
                     Inl f \<Rightarrow> Inl f
                   | Inr p \<Rightarrow> Inr (0, sockaddr\<lparr>sun_path := p\<rparr>, amt, [])))"

text \<open>The return value and the path left in the \<^verbatim>\<open>sockaddr\<close>, read as a C string.\<close>

definition read_sockaddr_path :: "char list option \<Rightarrow> sockaddr_un \<Rightarrow> (int \<times> char list) option" where
  "read_sockaddr_path control_pipe sockaddr =
     (case read_sockaddr control_pipe sockaddr of
        Inl f \<Rightarrow> None
      | Inr (ret, addr, amt, msgs) \<Rightarrow> Some (ret, c_str (sun_path addr)))"

text \<open>
  The path as the specification words it, "one NUL-or-newline-terminated socket path":
  the bytes up to the first NUL or newline.
\<close>

definition line_terminated_path :: "char list \<Rightarrow> char list" where
  "line_terminated_path bytes = takeWhile (\<lambda>b. b \<noteq> NUL \<and> b \<noteq> CHR 0x0A) bytes"

section \<open>The single-server reconnection controller\<close>

text \<open>
  One turn of the loop of \<^verbatim>\<open>run_single_server_reconnector\<close>, as the outside world
  decides it: the value of \<^verbatim>\<open>shutdown_flag\<close> at the loop head, the result of \<^verbatim>\<open>poll\<close>
  and whether \<^verbatim>\<open>errno\<close> is \<^verbatim>\<open>EINTR\<close>, the two \<^verbatim>\<open>revents\<close> tests, what the control
  pipe holds, and the results of \<^verbatim>\<open>connect_to_socket\<close>, \<^verbatim>\<open>write\<close> and \<^verbatim>\<open>send_one_fd\<close>.
\<close>

record reco_event =
  re_shutdown :: bool
  re_poll :: int
  re_eintr :: bool
  re_link_hup :: bool
  re_ctl_in :: bool
  re_pipe :: "char list option"
  re_connect :: int
  re_write :: int
  re_send :: int

text \<open>
  The loop. The result is the trace and, when the loop ends, \<^verbatim>\<open>retcode\<close>; \<open>Waiting\<close> when
  the events run out. \<open>addr\<close> is the local \<^verbatim>\<open>new_sockaddr\<close> as it is before
  \<^verbatim>\<open>read_sockaddr\<close> fills it.
\<close>

fun reconnector_loop ::
  "sockaddr_un \<Rightarrow> int \<Rightarrow> connection_token \<Rightarrow> reco_event list \<Rightarrow> syscall list \<times> outcome" where
  "reconnector_loop addr linkfd flagged_token [] = ([], Waiting)"
| "reconnector_loop addr linkfd flagged_token (e # es) =
     (if re_shutdown e then ([], Returned EXIT_SUCCESS)
      else if re_poll e = - 1 \<and> re_eintr e then reconnector_loop addr linkfd flagged_token es
      else if re_poll e = - 1 then ([], Returned EXIT_FAILURE)
      else if re_poll e = 0 then reconnector_loop addr linkfd flagged_token es
      else if re_link_hup e then ([], Returned EXIT_SUCCESS)
      else if re_ctl_in e then
        (case read_sockaddr (re_pipe e) addr of
           Inl f \<Rightarrow> ([], Faulted f)
         | Inr (ret, new_sockaddr, amt, msgs) \<Rightarrow>
             if ret = - 1 then (msgs, Returned EXIT_FAILURE)
             else
               let new_conn = re_connect e;
                   connect = Sys_connect (c_str (sun_path new_sockaddr)) new_conn;
                   sent = Sys_write_token Replacement new_conn flagged_token (re_write e)
               in if new_conn = - 1
                  then emit (msgs @ [connect, Wp_error])
                         (reconnector_loop addr linkfd flagged_token es)
                  else if re_write e \<noteq> token_size
                  then emit (msgs @ [connect, sent, Wp_error, Sys_close new_conn])
                         (reconnector_loop addr linkfd flagged_token es)
                  else emit (msgs @ [connect, sent, Sys_send_one_fd linkfd new_conn (re_send e)]
                               @ (if re_send e = - 1 then [Wp_error] else [])
                               @ [Sys_close new_conn])
                         (reconnector_loop addr linkfd flagged_token es))
      else reconnector_loop addr linkfd flagged_token es)"

definition run_single_server_reconnector ::
  "sockaddr_un \<Rightarrow> int \<Rightarrow> int \<Rightarrow> connection_token \<Rightarrow> reco_event list \<Rightarrow> syscall list \<times> outcome" where
  "run_single_server_reconnector addr control_pipe linkfd flagged_token events =
     (case reconnector_loop addr linkfd flagged_token events of
        (tr, Returned retcode) \<Rightarrow>
          (tr @ [Sys_close control_pipe, Sys_close linkfd], Returned retcode)
      | (tr, other) \<Rightarrow> (tr, other))"

text \<open>A turn in which the control pipe is readable and holds the given bytes, and every call succeeds.\<close>

definition path_event :: "char list \<Rightarrow> int \<Rightarrow> reco_event" where
  "path_event bytes fd = \<lparr> re_shutdown = False, re_poll = 1, re_eintr = False,
     re_link_hup = False, re_ctl_in = True, re_pipe = Some bytes, re_connect = fd,
     re_write = token_size, re_send = 0 \<rparr>"

section \<open>The multi-server's connection table\<close>

text \<open>
  \<^verbatim>\<open>struct conn_addr\<close> and \<^verbatim>\<open>struct conn_map\<close>: the table is the list of its first
  \<^verbatim>\<open>count\<close> entries, in index order.
\<close>

record conn_addr =
  token :: connection_token
  pid :: int
  linkfd :: int

text \<open>
  What happens when \<^verbatim>\<open>update_connections\<close> works on the entry with index \<open>i\<close>: the
  results of \<^verbatim>\<open>connect_to_socket\<close>, \<^verbatim>\<open>write\<close> and \<^verbatim>\<open>send_one_fd\<close>.
\<close>

record attempt =
  at_connect :: int
  at_write :: int
  at_send :: int

definition flag_update :: "proto_consts \<Rightarrow> connection_token \<Rightarrow> connection_token" where
  "flag_update c tok = tok\<lparr>header := header tok OR CONN_UPDATE_BIT c\<rparr>"

text \<open>
  The loop \<^verbatim>\<open>for (int i = 0; i < connmap->count; i++)\<close> of \<^verbatim>\<open>update_connections\<close>, from
  index \<open>i\<close> on, over the entries that are left. It yields the trace and 0 when it runs
  to the end, -1 when it returns early.
\<close>

fun update_loop ::
  "proto_consts \<Rightarrow> char list \<Rightarrow> (nat \<Rightarrow> attempt) \<Rightarrow> nat \<Rightarrow> conn_addr list \<Rightarrow> syscall list \<times> int" where
  "update_loop c new_path env i [] = ([], 0)"
| "update_loop c new_path env i (r # rs) =
     (let chanfd = at_connect (env i);
          flagged_token = flag_update c (token r);
          connect = Sys_connect new_path chanfd;
          sent = Sys_write_token Replacement chanfd flagged_token (at_write (env i));
          passed = Sys_send_one_fd (linkfd r) chanfd (at_send (env i))
      in if chanfd = - 1 then ([connect, Wp_error], - 1)
         else if at_write (env i) \<noteq> token_size
         then ([connect, sent, Wp_error, Sys_close chanfd], - 1)
         else if at_send (env i) = - 1
         then ([connect, sent, passed, Sys_close chanfd], - 1)
         else emit [connect, sent, passed, Sys_close chanfd]
                (update_loop c new_path env (Suc i) rs))"

text \<open>
  \<^verbatim>\<open>update_connections\<close>: the trace, the return value and \<^verbatim>\<open>*current_sockaddr\<close>
  afterwards. \<^verbatim>\<open>strcmp\<close> compares the two paths as C strings.
\<close>

definition update_connections ::
  "proto_consts \<Rightarrow> (nat \<Rightarrow> attempt) \<Rightarrow> sockaddr_un \<Rightarrow> sockaddr_un \<Rightarrow> conn_addr list \<Rightarrow> bool
   \<Rightarrow> syscall list \<times> int \<times> sockaddr_un" where
  "update_connections c env current_sockaddr new_sockaddr connmap unlink_at_end =
     (case update_loop c (c_str (sun_path new_sockaddr)) env 0 connmap of
        (tr, ret) \<Rightarrow>
          if ret = - 1 then (tr, - 1, current_sockaddr)
          else (tr @ (if unlink_at_end
                        \<and> c_str (sun_path current_sockaddr) \<noteq> c_str (sun_path new_sockaddr)
                      then [Sys_unlink (c_str (sun_path current_sockaddr))] else []),
                0, new_sockaddr))"

text \<open>
  The outside world of one call of \<^verbatim>\<open>handle_new_server_connection\<close>: the results of
  \<^verbatim>\<open>buf_ensure_size\<close>, \<^verbatim>\<open>connect_to_socket\<close>, \<^verbatim>\<open>write\<close>, \<^verbatim>\<open>socketpair\<close> (with the
  two descriptors it stores) and \<^verbatim>\<open>fork\<close>, and what \<^verbatim>\<open>main_interface_loop\<close> returns in
  the child.
\<close>

record new_conn_env =
  nc_alloc :: int
  nc_connect :: int
  nc_write :: int
  nc_socketpair :: int
  nc_linksocks :: "int \<times> int"
  nc_fork :: int
  nc_loop_rc :: int

definition handle_new_server_connection ::
  "new_conn_env \<Rightarrow> sockaddr_un \<Rightarrow> int \<Rightarrow> int \<Rightarrow> int \<Rightarrow> conn_addr list \<Rightarrow> connection_token
   \<Rightarrow> syscall list \<times> outcome \<times> conn_addr list" where
  "handle_new_server_connection env current_sockaddr control_pipe wdisplay_socket appfd connmap
      new_token =
     (let reconnectable = (control_pipe \<noteq> - 1);
          chanfd = nc_connect env;
          connect = Sys_connect (c_str (sun_path current_sockaddr)) chanfd;
          sent = Sys_write_token Fresh chanfd new_token (nc_write env);
          fail_chanfd = [Sys_close chanfd, Sys_close appfd]
      in if reconnectable \<and> nc_alloc env = - 1
         then ([Wp_error, Sys_close appfd], Returned (- 1), connmap)
         else if chanfd = - 1
         then ([connect, Sys_close appfd], Returned (- 1), connmap)
         else if nc_write env \<noteq> token_size
         then ([connect, sent, Wp_error] @ fail_chanfd, Returned (- 1), connmap)
         else if reconnectable \<and> nc_socketpair env = - 1
         then ([connect, sent, Sys_socketpair (- 1) (- 1) (- 1), Wp_error] @ fail_chanfd,
               Returned (- 1), connmap)
         else
           let linksocks = (if reconnectable then nc_linksocks env else (- 1, - 1));
               begun = [connect, sent]
                 @ (if reconnectable then [Sys_socketpair 0 (fst linksocks) (snd linksocks)] else []);
               npid = nc_fork env
           in if npid = 0
              then (begun @ [Sys_fork 0, Sys_close wdisplay_socket]
                      @ (if reconnectable
                         then [Sys_close control_pipe, Sys_close (fst linksocks)] else [])
                      @ map Sys_close (filter (\<lambda>fd. fd \<noteq> - 1) (map linkfd connmap))
                      @ [Main_interface_loop chanfd appfd (snd linksocks), Check_unclosed_fds,
                         Sys_exit (nc_loop_rc env)],
                    Exited (nc_loop_rc env), connmap)
              else if npid = - 1
              then (begun @ [Sys_fork (- 1)]
                      @ (if reconnectable
                         then [Sys_close (fst linksocks), Sys_close (snd linksocks)] else [])
                      @ fail_chanfd,
                    Returned (- 1), connmap)
              else (begun @ [Sys_fork npid, Sys_close chanfd, Sys_close appfd]
                      @ (if reconnectable then [Sys_close (snd linksocks)] else []),
                    Returned 0,
                    if reconnectable
                    then connmap @ [\<lparr> token = new_token, pid = npid, linkfd = fst linksocks \<rparr>]
                    else connmap))"

section \<open>The multi-server loop\<close>

text \<open>
  Modelled from the spec: \<^verbatim>\<open>wait_for_pid_and_clean\<close> is called by \<^verbatim>\<open>run_multi_server\<close> but
  defined in a file that is not among the sources. The specification says of it: "a
  non-blocking child-reaper sweeps the table; a sole-child exit code is propagated;
  entries with exited pids are dropped". The pids that have exited and the return value
  come from the outside world; the effect on the table is the sweep.
\<close>

definition wait_for_pid_and_clean :: "int list \<Rightarrow> conn_addr list \<Rightarrow> conn_addr list" where
  "wait_for_pid_and_clean exited connmap = filter (\<lambda>r. pid r \<notin> set exited) connmap"

text \<open>\<^verbatim>\<open>WEXITSTATUS(status)\<close>: bits 8 to 15 of the status.\<close>

definition WEXITSTATUS :: "int \<Rightarrow> int" where
  "WEXITSTATUS status = drop_bit 8 (status AND 0xff00)"

text \<open>
  One turn of the loop of \<^verbatim>\<open>run_multi_server\<close> as the outside world decides it: the
  shutdown flag, the reaper (its return value, the status, the pids that exited), the
  result of \<^verbatim>\<open>poll\<close>, the \<^verbatim>\<open>revents\<close> tests, the control pipe's content, the attempts
  of \<^verbatim>\<open>update_connections\<close>, the result of \<^verbatim>\<open>accept\<close>, the key material and the calls of
  \<^verbatim>\<open>handle_new_server_connection\<close>.
\<close>

record multi_event =
  me_shutdown :: bool
  me_child_died :: bool
  me_status :: int
  me_exited :: "int list"
  me_poll :: int
  me_eintr :: bool
  me_ctl_in :: bool
  me_pipe :: "char list option"
  me_update :: "nat \<Rightarrow> attempt"
  me_display_in :: bool
  me_accept :: int
  me_eagain :: bool
  me_rand :: rand_env
  me_new_conn :: new_conn_env

text \<open>The variables of \<^verbatim>\<open>run_multi_server\<close> that change from turn to turn.\<close>

record multi_state =
  connmap :: "conn_addr list"
  current_sockaddr :: sockaddr_un
  cur_token :: connection_token

text \<open>
  How one turn of a loop ends: \<open>Again\<close> for \<^verbatim>\<open>continue\<close> or the end of the body,
  \<open>Stop\<close> for \<^verbatim>\<open>break\<close>, \<^verbatim>\<open>exit\<close> or a fault; both with the trace of the turn and the
  state after it.
\<close>

datatype 's turn =
    Again (turn_trace: "syscall list") (turn_state: 's)
  | Stop (turn_trace: "syscall list") outcome (turn_state: 's)

text \<open>
  The body of the loop of \<^verbatim>\<open>run_multi_server\<close>. \<^verbatim>\<open>poll\<close> looks at \<^verbatim>\<open>pfs[1]\<close> only when
  there is a control pipe; without one \<^verbatim>\<open>pfs[1].revents\<close> keeps its initial 0. The
  return value of \<^verbatim>\<open>update_connections\<close> is dropped by the caller. \<open>addr\<close> is the local
  \<^verbatim>\<open>new_sockaddr\<close> as it is before \<^verbatim>\<open>read_sockaddr\<close> fills it.
\<close>

definition control_turn ::
  "proto_consts \<Rightarrow> sockaddr_un \<Rightarrow> int \<Rightarrow> bool \<Rightarrow> multi_state \<Rightarrow> multi_event
   \<Rightarrow> mem_fault + (syscall list \<times> multi_state)" where
  "control_turn c addr control_pipe unlink_at_end s e =
     (if control_pipe \<noteq> - 1 \<and> me_ctl_in e
      then (case read_sockaddr (me_pipe e) addr of
              Inl f \<Rightarrow> Inl f
            | Inr (ret, new_sockaddr, amt, msgs) \<Rightarrow>
                if ret = - 1 then Inr (msgs, s)
                else (case update_connections c (me_update e) (current_sockaddr s) new_sockaddr
                             (connmap s) unlink_at_end of
                        (tr, ret2, cur) \<Rightarrow> Inr (msgs @ tr, s\<lparr>current_sockaddr := cur\<rparr>)))
      else Inr ([], s))"

definition display_turn ::
  "int \<Rightarrow> int \<Rightarrow> syscall list \<Rightarrow> multi_state \<Rightarrow> multi_event \<Rightarrow> multi_state turn" where
  "display_turn control_pipe wdisplay_socket tr1 s e =
     (if me_display_in e then
        if me_accept e = - 1 then
          if me_eagain e then Again tr1 s
          else Stop (tr1 @ [Wp_error]) (Returned EXIT_FAILURE) s
        else
          let s3 = s\<lparr>cur_token := fill_random_key (me_rand e) (cur_token s)\<rparr>
          in (case handle_new_server_connection (me_new_conn e) (current_sockaddr s3)
                     control_pipe wdisplay_socket (me_accept e) (connmap s3) (cur_token s3) of
                (tr2, Returned ret, cm) \<Rightarrow>
                  if ret = - 1 then Stop (tr1 @ tr2) (Returned EXIT_FAILURE) (s3\<lparr>connmap := cm\<rparr>)
                  else Again (tr1 @ tr2) (s3\<lparr>connmap := cm\<rparr>)
              | (tr2, other, cm) \<Rightarrow> Stop (tr1 @ tr2) other (s3\<lparr>connmap := cm\<rparr>))
      else Again tr1 s)"

definition multi_turn ::
  "proto_consts \<Rightarrow> sockaddr_un \<Rightarrow> int \<Rightarrow> bool \<Rightarrow> int \<Rightarrow> multi_state \<Rightarrow> multi_event
   \<Rightarrow> multi_state turn" where
  "multi_turn c addr control_pipe unlink_at_end wdisplay_socket s e =
     (if me_shutdown e then Stop [] (Returned EXIT_SUCCESS) s
      else
        let s1 = s\<lparr>connmap := wait_for_pid_and_clean (me_exited e) (connmap s)\<rparr>
        in if me_child_died e then Stop [] (Returned (WEXITSTATUS (me_status e))) s1
           else if me_poll e = - 1 \<and> me_eintr e then Again [] s1
           else if me_poll e = - 1 then Stop [] (Returned EXIT_FAILURE) s1
           else if me_poll e = 0 then Again [] s1
           else (case control_turn c addr control_pipe unlink_at_end s1 e of
                   Inl f \<Rightarrow> Stop [] (Faulted f) s1
                 | Inr (tr1, s2) \<Rightarrow> display_turn control_pipe wdisplay_socket tr1 s2 e))"

text \<open>
  The loop \<^verbatim>\<open>while (!shutdown_flag)\<close>: the trace, how the loop ended (\<open>Returned\<close> carries
  \<^verbatim>\<open>retcode\<close> at the \<^verbatim>\<open>break\<close>, \<open>Waiting\<close> means the recorded turns ran out) and the state
  at that point.
\<close>

fun multi_loop ::
  "proto_consts \<Rightarrow> sockaddr_un \<Rightarrow> int \<Rightarrow> bool \<Rightarrow> int \<Rightarrow> multi_state \<Rightarrow> multi_event list
   \<Rightarrow> syscall list \<times> outcome \<times> multi_state" where
  "multi_loop c addr control_pipe unlink_at_end wdisplay_socket s [] = ([], Waiting, s)"
| "multi_loop c addr control_pipe unlink_at_end wdisplay_socket s (e # es) =
     (case multi_turn c addr control_pipe unlink_at_end wdisplay_socket s e of
        Stop tr out s' \<Rightarrow> (tr, out, s')
      | Again tr s' \<Rightarrow>
          emit tr (multi_loop c addr control_pipe unlink_at_end wdisplay_socket s' es))"

text \<open>
  \<^verbatim>\<open>run_multi_server\<close>: the table starts empty, the token is zeroed and gets its header
  once, before the loop; after the loop the function unlinks and closes what it holds
  and returns \<^verbatim>\<open>retcode\<close>. The table is part of the result as it is when the loop ends.
\<close>

definition run_multi_server ::
  "proto_consts \<Rightarrow> sockaddr_un \<Rightarrow> multi_event list \<Rightarrow> int \<Rightarrow> sockaddr_un \<Rightarrow> bool \<Rightarrow> int
   \<Rightarrow> syscall list \<times> outcome \<times> conn_addr list" where
  "run_multi_server c addr events control_pipe socket_addr unlink_at_end wdisplay_socket =
     (let start = \<lparr> connmap = [], current_sockaddr = socket_addr,
                    cur_token = \<lparr> header = conntoken_header c (control_pipe \<noteq> - 1) False,
                                  key = (0, 0, 0) \<rparr> \<rparr>
      in case multi_loop c addr control_pipe unlink_at_end wdisplay_socket start events of
           (tr, Returned retcode, s) \<Rightarrow>
             (tr @ (if unlink_at_end then [Sys_unlink (c_str (sun_path (current_sockaddr s)))]
                    else [])
                 @ [Sys_close wdisplay_socket]
                 @ (if control_pipe \<noteq> - 1 then [Sys_close control_pipe] else [])
                 @ map (\<lambda>r. Sys_close (linkfd r)) (connmap s),
              Returned retcode, connmap s)
         | (tr, other, s) \<Rightarrow> (tr, other, connmap s))"

section \<open>The single server\<close>

text \<open>
  The outside world of \<^verbatim>\<open>run_single_server\<close>: the results of \<^verbatim>\<open>connect_to_socket\<close>,
  the key material, \<^verbatim>\<open>write\<close>, \<^verbatim>\<open>socketpair\<close> and \<^verbatim>\<open>fork\<close>, the turns of the
  reconnection controller that runs in the forked child, and the return value of
  \<^verbatim>\<open>main_interface_loop\<close>.
\<close>

record single_env =
  se_connect :: int
  se_rand :: rand_env
  se_write :: int
  se_socketpair :: int
  se_linkfds :: "int \<times> int"
  se_fork :: int
  se_events :: "reco_event list"
  se_loop_rc :: int

definition run_single_server ::
  "proto_consts \<Rightarrow> sockaddr_un \<Rightarrow> single_env \<Rightarrow> int \<Rightarrow> sockaddr_un \<Rightarrow> bool \<Rightarrow> int
   \<Rightarrow> syscall list \<times> outcome" where
  "run_single_server c addr env control_pipe socket_addr unlink_at_end server_link =
     (let chanfd = se_connect env;
          connect = Sys_connect (c_str (sun_path socket_addr)) chanfd;
          reconnectable = (control_pipe \<noteq> - 1);
          zeroed = \<lparr> header = 0, key = (0, 0, 0) \<rparr>;
          tok = (fill_random_key (se_rand env) zeroed)
                  \<lparr>header := conntoken_header c reconnectable False\<rparr>;
          begun = connect # (if unlink_at_end then [Sys_unlink (c_str (sun_path socket_addr))] else [])
                    @ [Sys_write_token Fresh chanfd tok (se_write env)];
          fail_cfd = [Sys_close chanfd, Sys_close server_link]
      in if chanfd = - 1 then ([connect, Sys_close server_link], Returned EXIT_FAILURE)
         else if se_write env \<noteq> token_size
         then (begun @ [Wp_error] @ fail_cfd, Returned EXIT_FAILURE)
         else if control_pipe \<noteq> - 1 then
           if se_socketpair env = - 1
           then (begun @ [Sys_socketpair (- 1) (- 1) (- 1), Wp_error] @ fail_cfd,
                 Returned EXIT_FAILURE)
           else
             let linkfds = se_linkfds env;
                 paired = begun @ [Sys_socketpair 0 (fst linkfds) (snd linkfds)];
                 reco_pid = se_fork env
             in if reco_pid = - 1
                then (paired @ [Sys_fork (- 1), Sys_close (fst linkfds), Sys_close (snd linkfds)]
                        @ fail_cfd,
                      Returned EXIT_FAILURE)
                else if reco_pid = 0
                then (case run_single_server_reconnector addr control_pipe (snd linkfds)
                             (flag_update c tok) (se_events env) of
                        (tr, Returned rc) \<Rightarrow>
                          (paired @ [Sys_fork 0, Sys_close chanfd, Sys_close (fst linkfds),
                                     Sys_close server_link] @ tr @ [Sys_exit rc],
                           Exited rc)
                      | (tr, other) \<Rightarrow>
                          (paired @ [Sys_fork 0, Sys_close chanfd, Sys_close (fst linkfds),
                                     Sys_close server_link] @ tr,
                           other))
                else (paired @ [Sys_fork reco_pid, Sys_close control_pipe, Sys_close (snd linkfds),
                                Main_interface_loop chanfd server_link (fst linkfds)],
                      Returned (se_loop_rc env))
         else (begun @ [Main_interface_loop chanfd server_link (- 1)],
               Returned (se_loop_rc env)))"

section \<open>Observing a trace\<close>

text \<open>
  What a trace shows: the links over which a descriptor was sent (every attempt, and the
  attempts that succeeded, with the descriptor), the paths connected to, the paths
  unlinked and the socket pairs made.
\<close>

fun links_tried :: "syscall list \<Rightarrow> int list" where
  "links_tried [] = []"
| "links_tried (Sys_send_one_fd link fd r # tr) = link # links_tried tr"
| "links_tried (x # tr) = links_tried tr"

fun delivered :: "syscall list \<Rightarrow> (int \<times> int) list" where
  "delivered [] = []"
| "delivered (Sys_send_one_fd link fd r # tr) =
     (if r = - 1 then delivered tr else (link, fd) # delivered tr)"
| "delivered (x # tr) = delivered tr"

fun connects :: "syscall list \<Rightarrow> char list list" where
  "connects [] = []"
| "connects (Sys_connect path fd # tr) = path # connects tr"
| "connects (x # tr) = connects tr"

fun unlinks :: "syscall list \<Rightarrow> char list list" where
  "unlinks [] = []"
| "unlinks (Sys_unlink path # tr) = path # unlinks tr"
| "unlinks (x # tr) = unlinks tr"

fun socketpairs :: "syscall list \<Rightarrow> nat" where
  "socketpairs [] = 0"
| "socketpairs (Sys_socketpair r fd0 fd1 # tr) = Suc (socketpairs tr)"
| "socketpairs (x # tr) = socketpairs tr"

fun forks :: "syscall list \<Rightarrow> int list" where
  "forks [] = []"
| "forks (Sys_fork r # tr) = r # forks tr"
| "forks (x # tr) = forks tr"

fun worker_loops :: "syscall list \<Rightarrow> (int \<times> int \<times> int) list" where
  "worker_loops [] = []"
| "worker_loops (Main_interface_loop chanfd progfd link # tr) =
     (chanfd, progfd, link) # worker_loops tr"
| "worker_loops (x # tr) = worker_loops tr"

text \<open>An attempt of \<^verbatim>\<open>update_connections\<close> in which all three calls succeed.\<close>

definition attempt_ok :: "attempt \<Rightarrow> bool" where
  "attempt_ok a \<longleftrightarrow> at_connect a \<noteq> - 1 \<and> at_write a = token_size \<and> at_send a \<noteq> - 1"

text \<open>
  The number of entries at the head of the table whose attempts all succeed: the index
  of the first entry that fails, or the size of the table.
\<close>

definition migrated :: "(nat \<Rightarrow> attempt) \<Rightarrow> nat \<Rightarrow> nat" where
  "migrated env n = length (takeWhile attempt_ok (map env [0..<n]))"

section \<open>Observing the tokens of a trace\<close>

text \<open>
  A monitor for the tokens written in a trace (\<open>tokens_written\<close>, the tokens with
  their roles in order), read from left to right. \<open>seen\<close> holds
  the tokens written on fresh channels so far. A token on a fresh channel must have the
  UPDATE bit clear; a token on a replacement channel must have the UPDATE bit set and
  must be a fresh token seen before with nothing changed but that bit: same key, header
  or-ed with the bit.
\<close>

definition update_clear :: "proto_consts \<Rightarrow> connection_token \<Rightarrow> bool" where
  "update_clear c tok \<longleftrightarrow> header tok AND CONN_UPDATE_BIT c = 0"

definition update_set :: "proto_consts \<Rightarrow> connection_token \<Rightarrow> bool" where
  "update_set c tok \<longleftrightarrow> header tok AND CONN_UPDATE_BIT c = CONN_UPDATE_BIT c"

definition replaces :: "proto_consts \<Rightarrow> connection_token \<Rightarrow> connection_token \<Rightarrow> bool" where
  "replaces c tok original \<longleftrightarrow>
     key tok = key original \<and> header tok = header original OR CONN_UPDATE_BIT c"

text \<open>The tokens of a trace with their roles, in order.\<close>

fun tokens_written :: "syscall list \<Rightarrow> (channel_role \<times> connection_token) list" where
  "tokens_written [] = []"
| "tokens_written (Sys_write_token role fd tok n # tr) = (role, tok) # tokens_written tr"
| "tokens_written (x # tr) = tokens_written tr"

fun roles_ok ::
  "proto_consts \<Rightarrow> connection_token list \<Rightarrow> (channel_role \<times> connection_token) list \<Rightarrow> bool" where
  "roles_ok c seen [] = True"
| "roles_ok c seen ((Fresh, tok) # ts) = (update_clear c tok \<and> roles_ok c (tok # seen) ts)"
| "roles_ok c seen ((Replacement, tok) # ts) =
     (update_set c tok \<and> list_ex (replaces c tok) seen \<and> roles_ok c seen ts)"

definition tokens_ok :: "proto_consts \<Rightarrow> syscall list \<Rightarrow> bool" where
  "tokens_ok c tr = roles_ok c [] (tokens_written tr)"

text \<open>
  The condition on the macro values under which the UPDATE bit of a header can be told
  from the rest: the UPDATE bit is a bit of its own, apart from
  the version field and the two other flags.
\<close>

definition update_bit_apart :: "proto_consts \<Rightarrow> bool" where
  "update_bit_apart c \<longleftrightarrow>
     CONN_UPDATE_BIT c \<noteq> 0 \<and>
     CONN_UPDATE_BIT c AND
       (push_bit 16 (WAYPIPE_PROTOCOL_VERSION c) OR CONN_RECONNECTABLE_BIT c OR CONN_FIXED_BIT c) = 0"

text \<open>The token \<^verbatim>\<open>update_connections\<close> writes for an entry, with the role of the channel.\<close>

definition flagged_of :: "proto_consts \<Rightarrow> conn_addr \<Rightarrow> channel_role \<times> connection_token" where
  "flagged_of c r = (Replacement, flag_update c (token r))"

section \<open>The thread pool as the mirror test waits for it (test/fd_mirror.c)\<close>

text \<open>
  \<^verbatim>\<open>struct task_data\<close> and \<^verbatim>\<open>struct thread_pool\<close> are declared in a header that is not
  among the sources. The model keeps what \<^verbatim>\<open>wait_for_thread_pool\<close> reads and writes: the
  type of a task (\<^verbatim>\<open>TASK_STOP\<close> or any other enumerator, by its number) with the rest of
  the task as a payload, and of the pool the queue array and the three counters, which
  are C \<^verbatim>\<open>int\<close>s.
\<close>

datatype task_kind = TASK_STOP | TASK_OTHER nat

record 'a task_data =
  task_type :: task_kind
  task_payload :: 'a

record 'a thread_pool =
  queue :: "'a task_data list"
  queue_start :: int
  queue_end :: int
  queue_in_progress :: int

text \<open>
  The first critical section of an iteration, after \<open>done\<close> is computed: with the mutex
  held the main thread looks at the front of the queue and takes the task there unless
  it is a stop task. \<open>None\<close> stands for the local \<^verbatim>\<open>task\<close> keeping its initial type
  \<^verbatim>\<open>TASK_STOP\<close>. An index outside the queue array is a fault.
\<close>

definition take_front :: "'a thread_pool \<Rightarrow> mem_fault + ('a task_data option \<times> 'a thread_pool)" where
  "take_front pool =
     (if queue_start pool < queue_end pool then
        let i = queue_start pool in
        if i < 0 then Inl Read_Before_Start
        else if int (length (queue pool)) \<le> i then Inl Read_Past_End
        else if task_type (queue pool ! nat i) \<noteq> TASK_STOP
        then Inr (Some (queue pool ! nat i),
                  pool\<lparr>queue_start := queue_start pool + 1,
                       queue_in_progress := queue_in_progress pool + 1\<rparr>)
        else Inr (None, pool)
      else Inr (None, pool))"

text \<open>
  The main thread touches the pool only with the mutex held. What the worker threads do
  to the pool in between is an input: \<open>pt_before\<close> is their effect up to the moment the
  main thread takes the mutex in this iteration, \<open>pt_during\<close> their effect while the main
  thread runs the task it took (\<^verbatim>\<open>run_task\<close>, whose own work is outside the pool).
\<close>

record 'a pool_turn =
  pt_before :: "'a thread_pool \<Rightarrow> 'a thread_pool"
  pt_during :: "'a thread_pool \<Rightarrow> 'a thread_pool"

text \<open>
  What one iteration did: the pool when the mutex was taken, the value of \<open>done\<close>, the
  task taken, the pool when the mutex was released, the pool when it was taken again
  after \<^verbatim>\<open>run_task\<close>, and the pool at the end of the iteration.
\<close>

record 'a iteration =
  it_locked :: "'a thread_pool"
  it_done :: bool
  it_task :: "'a task_data option"
  it_unlocked :: "'a thread_pool"
  it_relocked :: "'a thread_pool"
  it_end :: "'a thread_pool"

datatype wait_end = Drained | Still_waiting | Crashed mem_fault

text \<open>
  \<^verbatim>\<open>wait_for_thread_pool\<close>: the loop \<^verbatim>\<open>while (!done)\<close> over the turns of the other
  threads. It ends with \<open>Drained\<close> when the function returns, with \<open>Still_waiting\<close> when
  the recorded turns run out before \<open>done\<close> became true.
\<close>

fun wait_for_thread_pool ::
  "'a pool_turn list \<Rightarrow> 'a thread_pool \<Rightarrow> 'a iteration list \<times> wait_end" where
  "wait_for_thread_pool [] pool = ([], Still_waiting)"
| "wait_for_thread_pool (t # ts) pool =
     (let locked = pt_before t pool;
          done = (queue_end locked = queue_start locked \<and> queue_in_progress locked = 0)
      in case take_front locked of
           Inl f \<Rightarrow> ([], Crashed f)
         | Inr (task, unlocked) \<Rightarrow>
             let relocked = (case task of Some x \<Rightarrow> pt_during t unlocked | None \<Rightarrow> unlocked);
                 ended = (case task of
                            Some x \<Rightarrow> relocked\<lparr>queue_in_progress := queue_in_progress relocked - 1\<rparr>
                          | None \<Rightarrow> relocked);
                 it = \<lparr> it_locked = locked, it_done = done, it_task = task,
                        it_unlocked = unlocked, it_relocked = relocked, it_end = ended \<rparr>
             in if done then ([it], Drained)
                else emit [it] (wait_for_thread_pool ts ended))"

text \<open>
  What is true of every iteration, whatever the other threads do: \<open>done\<close> is the test
  "queue empty and nothing in progress" on the locked pool; the critical section never
  touches the queue array or \<^verbatim>\<open>queue_end\<close>; either no task is taken and the pool is left
  as it was, or the task taken is the one at \<^verbatim>\<open>queue_start\<close>, it is not a stop task,
  \<^verbatim>\<open>queue_start\<close> and \<^verbatim>\<open>queue_in_progress\<close> go up by one before the task runs, and after
  the run \<^verbatim>\<open>queue_in_progress\<close> goes down by one and nothing else changes.
\<close>

definition iteration_ok :: "'a iteration \<Rightarrow> bool" where
  "iteration_ok it \<longleftrightarrow>
     (it_done it \<longleftrightarrow> queue_start (it_locked it) = queue_end (it_locked it)
                      \<and> queue_in_progress (it_locked it) = 0)
     \<and> queue (it_unlocked it) = queue (it_locked it)
     \<and> queue_end (it_unlocked it) = queue_end (it_locked it)
     \<and> (case it_task it of
           None \<Rightarrow> it_unlocked it = it_locked it \<and> it_relocked it = it_unlocked it
                    \<and> it_end it = it_unlocked it
         | Some x \<Rightarrow>
             queue_start (it_locked it) < queue_end (it_locked it)
             \<and> 0 \<le> queue_start (it_locked it)
             \<and> nat (queue_start (it_locked it)) < length (queue (it_locked it))
             \<and> x = queue (it_locked it) ! nat (queue_start (it_locked it))
             \<and> task_type x \<noteq> TASK_STOP
             \<and> queue_start (it_unlocked it) = queue_start (it_locked it) + 1
             \<and> queue_in_progress (it_unlocked it) = queue_in_progress (it_locked it) + 1
             \<and> queue_start (it_end it) = queue_start (it_relocked it)
             \<and> queue_end (it_end it) = queue_end (it_relocked it)
             \<and> queue (it_end it) = queue (it_relocked it)
             \<and> queue_in_progress (it_end it) = queue_in_progress (it_relocked it) - 1)"

section \<open>The mirror test (test/fd_mirror.c)\<close>

text \<open>
  \<^verbatim>\<open>bool fwd = i == 0 || i % 2;\<close> in the loop of \<^verbatim>\<open>test_mirror\<close>.
\<close>

definition pass_forward :: "int \<Rightarrow> bool" where
  "pass_forward i \<longleftrightarrow> i = 0 \<or> i mod 2 \<noteq> 0"

text \<open>
  \<^verbatim>\<open>memset(data + start, seqno, n)\<close> on the mapped content: the value is converted to
  \<^verbatim>\<open>unsigned char\<close>.
\<close>

definition memset :: "8 word list \<Rightarrow> nat \<Rightarrow> int \<Rightarrow> nat \<Rightarrow> 8 word list" where
  "memset data start v n =
     take start data @ replicate (min n (length data - start)) (word_of_int v) @ drop (start + n) data"

text \<open>
  \<^verbatim>\<open>update_file(file_fd, bo, sz, seqno)\<close>. The calls of \<^verbatim>\<open>rand()\<close> are the values
  \<open>rng pos\<close>, \<open>rng (pos + 1)\<close>, ... of a stream, and the position in the stream is part of
  the result, as is the content of the file. \<open>mmap_ok\<close> says whether \<^verbatim>\<open>mmap\<close> succeeds;
  it fails for a length of 0. The sizes are below \<open>2^31\<close> (the test uses 163840), so the
  cast \<^verbatim>\<open>(int)(end - start)\<close> keeps the value.
\<close>

definition update_file ::
  "(nat \<Rightarrow> nat) \<Rightarrow> nat \<Rightarrow> bool \<Rightarrow> 8 word list \<Rightarrow> nat \<Rightarrow> int \<Rightarrow> int \<times> 8 word list \<times> nat" where
  "update_file rng pos mmap_ok data sz seqno =
     (if rng pos mod 11 = 0 then (0, data, pos + 1)
      else if \<not> mmap_ok \<or> sz = 0 then (- 1, data, pos + 1)
      else
        let start0 = rng (pos + 1) mod sz;
            end0 = rng (pos + 2) mod sz;
            start = (if start0 > end0 then end0 else start0);
            end1 = (if start0 > end0 then start0 else end0)
        in (int (end1 - start), memset data start seqno (end1 - start), pos + 3))"

text \<open>
  \<^verbatim>\<open>check_match\<close> for two files: the sizes must agree and \<^verbatim>\<open>memcmp\<close> must find no
  difference; a failing \<^verbatim>\<open>mmap\<close> (\<open>maps_ok\<close> false) makes it false.
\<close>

definition check_match :: "bool \<Rightarrow> 8 word list \<Rightarrow> 8 word list \<Rightarrow> bool" where
  "check_match maps_ok orig copy \<longleftrightarrow> maps_ok \<and> length copy = length orig \<and> copy = orig"

text \<open>
  The transfer engine (\<^verbatim>\<open>collect_update\<close>, \<^verbatim>\<open>finish_update\<close>, \<^verbatim>\<open>apply_update\<close>, the
  translation maps and the thread pools) is defined in files that are not among the
  sources, so the test is modelled for an arbitrary engine: \<open>en_collect\<close> turns the
  engine's state and the content of the sending side into the blocks of
  \<^verbatim>\<open>transfer_data\<close>, \<open>en_apply\<close> applies the blocks on the receiving side (which has no
  content before the first transfer) and yields its content. The flag says whether the
  transfer goes from the source map to the sink map.
\<close>

record ('e, 'b) engine =
  en_collect :: "'e \<Rightarrow> bool \<Rightarrow> 8 word list \<Rightarrow> 'b list \<times> 'e"
  en_apply :: "'e \<Rightarrow> bool \<Rightarrow> 'b list \<Rightarrow> 8 word list option \<Rightarrow> 8 word list \<times> 'e"

text \<open>
  \<^verbatim>\<open>test_transfer\<close>: collect on the sending side; when no change was made (\<open>ndiff = 0\<close>)
  the test wants no block and applies nothing; otherwise it wants at least one block,
  applies them and compares the two contents. The result is the verdict, the content of
  the receiving side and the engine's state.
\<close>

definition test_transfer ::
  "('e, 'b) engine \<Rightarrow> 'e \<Rightarrow> bool \<Rightarrow> bool \<Rightarrow> 8 word list \<Rightarrow> 8 word list option \<Rightarrow> int
   \<Rightarrow> bool \<times> 8 word list option \<times> 'e" where
  "test_transfer eng st fwd maps_ok sending receiving ndiff =
     (case en_collect eng st fwd sending of
        (blocks, st1) \<Rightarrow>
          if ndiff = 0 then (blocks = [], receiving, st1)
          else if blocks = [] then (False, receiving, st1)
          else (case en_apply eng st1 fwd blocks receiving of
                  (applied, st2) \<Rightarrow> (check_match maps_ok sending applied, Some applied, st2)))"

text \<open>
  The state of \<^verbatim>\<open>test_mirror\<close> between passes: the contents of the source file and of
  the sink's copy (none before the first transfer, \<^verbatim>\<open>dst_shadow == NULL\<close>), the position
  in the \<^verbatim>\<open>rand()\<close> stream and the engine's state. The outside world of a pass: whether
  the \<^verbatim>\<open>mmap\<close> calls of the update and of the comparison succeed.
\<close>

record 'e mirror_state =
  ms_source :: "8 word list"
  ms_sink :: "8 word list option"
  ms_pos :: nat
  ms_engine :: 'e

record pass_env =
  pe_mmap_ok :: bool
  pe_maps_ok :: bool

text \<open>What a pass did: its index, its direction, \<open>ndiff\<close>, and the two contents after it.\<close>

record pass_record =
  pr_index :: int
  pr_forward :: bool
  pr_ndiff :: int
  pr_source :: "8 word list"
  pr_sink :: "8 word list option"

datatype test_end = Verdict bool | Test_crashed mem_fault

text \<open>
  The body of \<^verbatim>\<open>for (int i = 0; i < 5; i++)\<close> for the pass indices that are left. The
  update function is a parameter, as in the C code (a function pointer).
\<close>

fun mirror_passes ::
  "('e, 'b) engine
   \<Rightarrow> ((nat \<Rightarrow> nat) \<Rightarrow> nat \<Rightarrow> bool \<Rightarrow> 8 word list \<Rightarrow> nat \<Rightarrow> int \<Rightarrow> int \<times> 8 word list \<times> nat)
   \<Rightarrow> (nat \<Rightarrow> nat) \<Rightarrow> (int \<Rightarrow> pass_env) \<Rightarrow> nat \<Rightarrow> int list \<Rightarrow> 'e mirror_state
   \<Rightarrow> pass_record list \<times> test_end" where
  "mirror_passes eng update rng env sz [] s = ([], Verdict True)"
| "mirror_passes eng update rng env sz (i # rest) s =
     (let fwd = pass_forward i in
      case (if fwd then Some (ms_source s) else ms_sink s) of
        None \<Rightarrow> ([], Test_crashed Null_Pointer)
      | Some target \<Rightarrow>
          (case (if i > 0 then update rng (ms_pos s) (pe_mmap_ok (env i)) target sz i
                 else (int sz, target, ms_pos s)) of
             (ndiff, changed, pos) \<Rightarrow>
               if ndiff = - 1 then ([], Verdict False)
               else
                 (case test_transfer eng (ms_engine s) fwd (pe_maps_ok (env i)) changed
                         (if fwd then ms_sink s else Some (ms_source s)) ndiff of
                    (subpass, received, st) \<Rightarrow>
                      let s' = (if fwd
                                then \<lparr> ms_source = changed, ms_sink = received,
                                       ms_pos = pos, ms_engine = st \<rparr>
                                else \<lparr> ms_source = (case received of Some c \<Rightarrow> c | None \<Rightarrow> ms_source s),
                                       ms_sink = Some changed, ms_pos = pos, ms_engine = st \<rparr>);
                          done = \<lparr> pr_index = i, pr_forward = fwd, pr_ndiff = ndiff,
                                   pr_source = ms_source s', pr_sink = ms_sink s' \<rparr>
                      in if \<not> subpass then ([done], Verdict False)
                         else emit [done] (mirror_passes eng update rng env sz rest s'))))"

text \<open>\<^verbatim>\<open>test_mirror\<close> on a file with the given content: the five passes 0 to 4.\<close>

definition test_mirror ::
  "('e, 'b) engine \<Rightarrow> 'e \<Rightarrow> (nat \<Rightarrow> nat) \<Rightarrow> nat \<Rightarrow> (int \<Rightarrow> pass_env) \<Rightarrow> 8 word list \<Rightarrow> nat
   \<Rightarrow> pass_record list \<times> test_end" where
  "test_mirror eng st rng pos env content sz =
     mirror_passes eng update_file rng env sz [0, 1, 2, 3, 4]
       \<lparr> ms_source = content, ms_sink = None, ms_pos = pos, ms_engine = st \<rparr>"

section \<open>Sample inputs\<close>

text \<open>
  Concrete inputs on which the definitions are run: a \<^verbatim>\<open>sockaddr\<close> that holds a given
  path, the entry of a worker in the connection table, and the attempts of an update in
  which the \<^verbatim>\<open>send_one_fd\<close> for the entry with index 1 fails.
\<close>

definition sockaddr_at :: "char list \<Rightarrow> sockaddr_un" where
  "sockaddr_at path = \<lparr> sun_family = 1, sun_path = path @ replicate (108 - length path) NUL \<rparr>"

definition session :: "nat \<Rightarrow> conn_addr" where
  "session i = \<lparr> token = \<lparr> header = 0x10003, key = (of_nat i, 2, 3) \<rparr>,
                 pid = 100 + int i, linkfd = 7 + int i \<rparr>"

definition second_send_fails :: "nat \<Rightarrow> attempt" where
  "second_send_fails i = \<lparr> at_connect = 10 + int i, at_write = 16,
                            at_send = (if i = 1 then - 1 else 0) \<rparr>"

text \<open>
  Turns of the multi-server loop: one in which an application connects (descriptor
  \<open>appfd\<close>) and the fork returns \<open>npid\<close> in the parent, and one in which the control pipe
  holds the given bytes; every call succeeds.
\<close>

definition sample_rand :: rand_env where
  "sample_rand = \<lparr> rnd_pid = 1000, rnd_sec = 5, rnd_nsec = 6, rnd_urandom = Some (11, 12, 13) \<rparr>"

definition sample_new_conn :: "int \<Rightarrow> new_conn_env" where
  "sample_new_conn npid = \<lparr> nc_alloc = 0, nc_connect = 20, nc_write = 16, nc_socketpair = 0,
     nc_linksocks = (30, 31), nc_fork = npid, nc_loop_rc = 0 \<rparr>"

definition accept_event :: "int \<Rightarrow> int \<Rightarrow> multi_event" where
  "accept_event appfd npid = \<lparr> me_shutdown = False, me_child_died = False, me_status = - 1,
     me_exited = [], me_poll = 1, me_eintr = False, me_ctl_in = False, me_pipe = None,
     me_update = (\<lambda>i. \<lparr> at_connect = 40 + int i, at_write = 16, at_send = 0 \<rparr>),
     me_display_in = True, me_accept = appfd, me_eagain = False, me_rand = sample_rand,
     me_new_conn = sample_new_conn npid \<rparr>"

definition control_event :: "char list \<Rightarrow> multi_event" where
  "control_event bytes = \<lparr> me_shutdown = False, me_child_died = False, me_status = - 1,
     me_exited = [], me_poll = 1, me_eintr = False, me_ctl_in = True, me_pipe = Some bytes,
     me_update = (\<lambda>i. \<lparr> at_connect = 40 + int i, at_write = 16, at_send = 0 \<rparr>),
     me_display_in = False, me_accept = - 1, me_eagain = False, me_rand = sample_rand,
     me_new_conn = sample_new_conn 0 \<rparr>"

text \<open>
  The outside world of a single server whose fork returns 0 (the run follows the
  reconnection controller in the child), with one path arriving on the control pipe.
\<close>

definition reconnecting_child :: single_env where
  "reconnecting_child = \<lparr> se_connect = 9, se_rand = sample_rand, se_write = 16,
     se_socketpair = 0, se_linkfds = (30, 31), se_fork = 0,
     se_events = [path_event ''/tmp/new'' 5], se_loop_rc = 0 \<rparr>"

text \<open>
  A pool for running \<^verbatim>\<open>wait_for_thread_pool\<close>: tasks with a number as payload, a turn
  in which the worker threads do nothing, and a pool whose queue holds one task.
\<close>

definition work :: "nat \<Rightarrow> nat task_data" where
  "work n = \<lparr> task_type = TASK_OTHER 1, task_payload = n \<rparr>"

definition stop_task :: "nat task_data" where
  "stop_task = \<lparr> task_type = TASK_STOP, task_payload = 0 \<rparr>"

definition quiet :: "nat pool_turn" where
  "quiet = \<lparr> pt_before = (\<lambda>p. p), pt_during = (\<lambda>p. p) \<rparr>"

definition one_task_pool :: "nat thread_pool" where
  "one_task_pool = \<lparr> queue = [work 7], queue_start = 0, queue_end = 1, queue_in_progress = 0 \<rparr>"

text \<open>
  For running the mirror test: a stream of \<^verbatim>\<open>rand()\<close> values, an engine that sends the
  whole content as one block unless it is the content it sent or applied last, and an
  outside world in which every \<^verbatim>\<open>mmap\<close> succeeds.
\<close>

definition sample_rng :: "nat \<Rightarrow> nat" where
  "sample_rng n = (let draws = [5, 1, 3, 11, 7, 0, 2, 9, 2, 2] in
                   if n < length draws then draws ! n else 0)"

definition copy_engine :: "(8 word list option, 8 word list) engine" where
  "copy_engine = \<lparr> en_collect = (\<lambda>st fwd content.
                       (if st = Some content then [] else [content], Some content)),
                   en_apply = (\<lambda>st fwd blocks receiving. (last blocks, st)) \<rparr>"

definition all_ok :: "int \<Rightarrow> pass_env" where
  "all_ok i = \<lparr> pe_mmap_ok = True, pe_maps_ok = True \<rparr>"

section \<open>The connection-token header\<close>

text \<open>
  C5. For every pair of booleans (reconnectable, update), the header is the bitwise or
  of the protocol version shifted left by 16 bits, the UPDATE bit when update is true,
  the RECONNECTABLE bit when reconnectable is true, and the FIXED bit. The statement
  lists the four pairs, and adds the same fact bit by bit: bit n of the header is set
  exactly when it is set in one of the parts that are switched on.
\<close>

theorem conntoken_header_is_or_of_parts:
  "conntoken_header c False False =
     push_bit 16 (WAYPIPE_PROTOCOL_VERSION c) OR CONN_FIXED_BIT c
   \<and> conntoken_header c True False =
     push_bit 16 (WAYPIPE_PROTOCOL_VERSION c) OR CONN_RECONNECTABLE_BIT c OR CONN_FIXED_BIT c
   \<and> conntoken_header c False True =
     push_bit 16 (WAYPIPE_PROTOCOL_VERSION c) OR CONN_UPDATE_BIT c OR CONN_FIXED_BIT c
   \<and> conntoken_header c True True =
     push_bit 16 (WAYPIPE_PROTOCOL_VERSION c) OR CONN_UPDATE_BIT c OR
       CONN_RECONNECTABLE_BIT c OR CONN_FIXED_BIT c
   \<and> (bit (conntoken_header c reconnectable update) n \<longleftrightarrow>
        bit (push_bit 16 (WAYPIPE_PROTOCOL_VERSION c)) n
        \<or> (update \<and> bit (CONN_UPDATE_BIT c) n)
        \<or> (reconnectable \<and> bit (CONN_RECONNECTABLE_BIT c) n)
        \<or> bit (CONN_FIXED_BIT c) n)"
  by (simp add: conntoken_header_def bit_or_iff)

theorem conntoken_header_is_or_of_parts_witness:
  "conntoken_header sample_consts True True = 0x10007
   \<and> conntoken_header sample_consts True False = 0x10003
   \<and> conntoken_header sample_consts False True = 0x10005
   \<and> conntoken_header sample_consts False False = 0x10001"
  using conntoken_header_is_or_of_parts [of sample_consts True True 0]
  by (simp add: sample_consts_def)

section \<open>The fallback shell command\<close>

lemma c_str_no_NUL: "NUL \<notin> set (c_str b)"
  by (auto simp: c_str_def dest: set_takeWhileD)

lemma c_str_append_NUL: "NUL \<notin> set s \<Longrightarrow> c_str (s @ NUL # r) = s"
  by (induction s) (auto simp: c_str_def)

lemma c_str_Cons: "c \<noteq> NUL \<Longrightarrow> c_str (c # r) = c # c_str r"
  by (simp add: c_str_def)

lemma c_str_literal: "NUL \<notin> set s \<Longrightarrow> c_str s = s"
  by (induction s) (auto simp: c_str_def)

lemma strlen_terminator: "strlen b < length b \<Longrightarrow> b ! strlen b = NUL"
  using nth_length_takeWhile [of "\<lambda>c. c \<noteq> NUL" b]
  by (simp add: strlen_def c_str_def)

lemma strcpy_fits:
  "off + strlen src + 1 \<le> length dst \<Longrightarrow>
   strcpy dst off src = Inr (take off dst @ c_str src @ NUL # drop (off + strlen src + 1) dst)"
  by (simp add: strcpy_def strlen_def)

lemma strcpy_at_0:
  assumes "strlen src + 1 \<le> length dst"
  shows "\<exists>r. strcpy dst 0 src = Inr r \<and> length r = length dst \<and> c_str r = c_str src
            \<and> (\<forall>i < strlen src. r ! i = c_str src ! i)
            \<and> r = c_str src @ NUL # drop (strlen src + 1) dst"
  using assms
  by (simp add: strcpy_fits c_str_append_NUL c_str_no_NUL nth_append strlen_def)

lemma strcpy_at_1:
  assumes "1 + strlen src + 1 \<le> length dst" and "dst ! 0 \<noteq> NUL"
  shows "\<exists>r. strcpy dst 1 src = Inr r \<and> length r = length dst
            \<and> c_str r = dst ! 0 # c_str src"
proof -
  from assms obtain d ds where dst: "dst = d # ds" by (cases dst) auto
  with assms show ?thesis
    by (simp add: strcpy_fits c_str_Cons c_str_append_NUL c_str_no_NUL strlen_def)
qed

lemma scan_start_bounds: "- 1 \<le> scan_start sh n \<and> scan_start sh n \<le> int n"
  by (induction n) auto

lemma scan_start_cong:
  "(\<forall>i<n. a ! i = b ! i) \<Longrightarrow> scan_start a n = scan_start b n"
  by (induction n) auto

lemma scan_start_none:
  "n \<le> length s \<Longrightarrow> scan_start s n < 0 \<longleftrightarrow> CHR ''/'' \<notin> set (take n s)"
proof (induction n)
  case 0
  show ?case by simp
next
  case (Suc n)
  then show ?case
    by (auto simp: take_Suc_conv_app_nth)
qed

lemma scan_start_basename:
  "n \<le> length s \<Longrightarrow> 0 \<le> scan_start s n \<Longrightarrow>
   s ! (nat (scan_start s n) - 1) = CHR ''/'' \<and> 0 < scan_start s n
   \<and> CHR ''/'' \<notin> set (drop (nat (scan_start s n)) (take n s))"
proof (induction n)
  case 0
  then show ?case by simp
next
  case (Suc n)
  show ?case
  proof (cases "s ! n = CHR ''/''")
    case True
    have "nat (int n + 1) - 1 = n" by simp
    with True Suc.prems show ?thesis by simp
  next
    case False
    from Suc.prems have n: "n < length s" by simp
    from False Suc.prems have st: "scan_start s (Suc n) = scan_start s n" by simp
    with Suc have ih: "s ! (nat (scan_start s n) - 1) = CHR ''/'' \<and> 0 < scan_start s n
      \<and> CHR ''/'' \<notin> set (drop (nat (scan_start s n)) (take n s))" by simp
    have le: "nat (scan_start s n) \<le> n" using scan_start_bounds [of s n] by linarith
    have "drop (nat (scan_start s n)) (take (Suc n) s) =
          drop (nat (scan_start s n)) (take n s) @ [s ! n]"
      using n le by (simp add: take_Suc_conv_app_nth)
    with ih False st show ?thesis by simp
  qed
qed

lemma setup_fallback:
  assumes "length shell = 256" "length shellname = 256"
    and "shell_env = None \<or> (\<exists>e. shell_env = Some e \<and> 254 \<le> strlen e)"
  shows "\<exists>sh nm. setup_login_shell_command shell shellname shell_env login_shell = Inr (sh, nm)
           \<and> length sh = 256 \<and> length nm = 256
           \<and> c_str sh = ''/bin/sh'' \<and> c_str nm = ''-sh''"
proof -
  have l1: "strlen ''-sh'' = 3" and l2: "strlen ''/bin/sh'' = 7"
    by (simp_all add: strlen_def c_str_def)
  obtain nm where nm: "strcpy shellname 0 ''-sh'' = Inr nm" "length nm = 256" "c_str nm = ''-sh''"
    using strcpy_at_0 [of "''-sh''" shellname] assms(2) l1 by (auto simp: c_str_def)
  obtain sh where sh: "strcpy shell 0 ''/bin/sh'' = Inr sh" "length sh = 256" "c_str sh = ''/bin/sh''"
    using strcpy_at_0 [of "''/bin/sh''" shell] assms(1) l2 by (auto simp: c_str_def)
  from assms(3) nm sh show ?thesis
    by (auto simp: setup_login_shell_command_def)
qed

lemma setup_plain:
  assumes "length shell = 256" "length shellname = 256" and "strlen e < 254"
  shows "\<exists>sh nm. setup_login_shell_command shell shellname (Some e) False = Inr (sh, nm)
           \<and> length sh = 256 \<and> length nm = 256
           \<and> c_str sh = c_str e \<and> c_str nm = c_str e"
proof -
  have l1: "strlen ''-sh'' = 3" and l2: "strlen ''/bin/sh'' = 7"
    by (simp_all add: strlen_def c_str_def)
  obtain nm1 where nm1: "strcpy shellname 0 ''-sh'' = Inr nm1" "length nm1 = 256"
    using strcpy_at_0 [of "''-sh''" shellname] assms(2) l1 by auto
  obtain sh1 where sh1: "strcpy shell 0 ''/bin/sh'' = Inr sh1" "length sh1 = 256"
    using strcpy_at_0 [of "''/bin/sh''" shell] assms(1) l2 by auto
  obtain sh2 where sh2: "strcpy sh1 0 e = Inr sh2" "length sh2 = 256" "c_str sh2 = c_str e"
    using strcpy_at_0 [of e sh1] assms(3) sh1(2) by auto
  have "strlen sh2 = strlen e" using sh2(3) by (simp add: strlen_def)
  then obtain nm3 where nm3: "strcpy nm1 0 sh2 = Inr nm3" "length nm3 = 256" "c_str nm3 = c_str sh2"
    using strcpy_at_0 [of sh2 nm1] assms(3) nm1(2) by auto
  from assms(3) nm1 sh1 sh2 nm3 show ?thesis
    by (simp add: setup_login_shell_command_def)
qed

lemma setup_login:
  assumes "length shell = 256" "length shellname = 256" and "strlen e < 254"
  shows "if scan_start (c_str e) (strlen e) < 0
         then setup_login_shell_command shell shellname (Some e) True = Inl Read_Before_Start
         else (\<exists>sh nm. setup_login_shell_command shell shellname (Some e) True = Inr (sh, nm)
           \<and> length sh = 256 \<and> length nm = 256 \<and> c_str sh = c_str e
           \<and> c_str nm = CHR ''-'' # drop (nat (scan_start (c_str e) (strlen e))) (c_str e))"
proof -
  let ?k = "scan_start (c_str e) (strlen e)"
  have l1: "strlen ''-sh'' = 3" and l2: "strlen ''/bin/sh'' = 7"
    by (simp_all add: strlen_def c_str_def)
  obtain nm1 where nm1: "strcpy shellname 0 ''-sh'' = Inr nm1" "length nm1 = 256"
    using strcpy_at_0 [of "''-sh''" shellname] assms(2) l1 by auto
  obtain sh1 where sh1: "strcpy shell 0 ''/bin/sh'' = Inr sh1" "length sh1 = 256"
    using strcpy_at_0 [of "''/bin/sh''" shell] assms(1) l2 by auto
  obtain sh2 where sh2: "strcpy sh1 0 e = Inr sh2" "length sh2 = 256" "c_str sh2 = c_str e"
      "\<forall>i < strlen e. sh2 ! i = c_str e ! i"
      "sh2 = c_str e @ NUL # drop (strlen e + 1) sh1"
    using strcpy_at_0 [of e sh1] assms(3) sh1(2) by auto
  have scan: "scan_start sh2 (strlen e) = ?k"
    using sh2(4) by (rule scan_start_cong)
  show ?thesis
  proof (cases "?k < 0")
    case True
    with assms(3) nm1 sh1 sh2 scan show ?thesis
      by (simp add: setup_login_shell_command_def)
  next
    case False
    have kle: "nat ?k \<le> strlen e"
      using scan_start_bounds [of "c_str e" "strlen e"] by linarith
    have dr: "drop (nat ?k) sh2 = drop (nat ?k) (c_str e) @ NUL # drop (strlen e + 1) sh1"
      using kle by (subst sh2(5)) (simp add: strlen_def)
    have cs: "c_str (drop (nat ?k) sh2) = drop (nat ?k) (c_str e)"
      unfolding dr using c_str_no_NUL [of e]
      by (intro c_str_append_NUL) (auto dest: in_set_dropD)
    then have sl: "strlen (drop (nat ?k) sh2) \<le> strlen e"
      by (simp add: strlen_def)
    obtain nm3 where nm3: "strcpy (nm1[0 := CHR ''-'']) 1 (drop (nat ?k) sh2) = Inr nm3"
       "length nm3 = 256" "c_str nm3 = CHR ''-'' # c_str (drop (nat ?k) sh2)"
      using strcpy_at_1 [of "drop (nat ?k) sh2" "nm1[0 := CHR ''-'']"] sl assms(3) nm1(2)
      by auto
    from False assms(3) nm1 sh1 sh2 scan nm3 cs show ?thesis
      by (simp add: setup_login_shell_command_def)
  qed
qed


text \<open>
  C1 (the code departs from the specification). With \<^verbatim>\<open>$SHELL\<close> unset and no login shell
  requested, the function returns right after writing its defaults: the command is
  \<^verbatim>\<open>/bin/sh\<close> and argv[0] is \<^verbatim>\<open>-sh\<close>, not \<^verbatim>\<open>/bin/sh\<close>. The flag \<open>login_shell\<close> is
  only read on the path where \<^verbatim>\<open>$SHELL\<close> is set and short enough.
\<close>

theorem setup_login_shell_command_unset_ignores_flag:
  "\<exists>sh nm. setup_login_shell_command stack_buf stack_buf None False = Inr (sh, nm)
      \<and> c_str sh = ''/bin/sh'' \<and> c_str nm = ''-sh'' \<and> c_str nm \<noteq> ''/bin/sh''"
proof -
  have "length stack_buf = 256" by (simp add: stack_buf_def)
  from setup_fallback [OF this this, of None False]
  show ?thesis by auto
qed

text \<open>
  The same run with \<^verbatim>\<open>$SHELL\<close> set to a name without a slash and a login shell
  requested: the scan ends at \<open>-1\<close> and the copy of the name reads below the array.
\<close>

lemma setup_login_shell_command_no_slash:
  "setup_login_shell_command stack_buf stack_buf (Some ''fish'') True = Inl Read_Before_Start"
proof -
  have len: "length stack_buf = 256" by (simp add: stack_buf_def)
  have "strlen ''fish'' = 4" by (simp add: strlen_def c_str_def)
  moreover have "scan_start ''fish'' 4 = - 1" by code_simp
  ultimately show ?thesis
    using setup_login [OF len len, of "''fish''"] by (simp add: c_str_def)
qed

text \<open>
  Whatever byte \<open>b\<close> lies below the array, the copy that follows that read would still
  fit: the name is the hyphen, \<open>b\<close> and at most 253 bytes of path, 255 bytes and the
  terminator.
\<close>

lemma copy_after_read_below_fits:
  assumes "length shellname = 256" and "strlen shell \<le> 253"
  shows "strcpy (shellname[0 := CHR ''-'']) 1 (b # shell) \<noteq> Inl Write_Past_End"
proof -
  have "strlen (b # shell) \<le> Suc (strlen shell)"
    by (simp add: strlen_def c_str_def)
  with assms show ?thesis
    by (simp add: strcpy_def strlen_def Let_def)
qed



section \<open>Reading the control pipe\<close>

lemma c_str_snoc_NUL: "c_str (xs @ [NUL]) = c_str xs"
  by (induction xs) (auto simp: c_str_def)

lemma read_sockaddr_characterised:
  "read_sockaddr None sockaddr = Inr (- 1, sockaddr, 0, [Wp_error])
   \<and> read_sockaddr (Some waiting) sockaddr =
       (let amt = min 4095 (length waiting); p = c_str (take amt waiting)
        in if length (sun_path sockaddr) \<le> length p
           then Inr (- 1, sockaddr, amt, [Wp_error])
           else Inr (0, sockaddr\<lparr>sun_path := p @ NUL # drop (length p + 1) (sun_path sockaddr)\<rparr>,
                     amt, []))"
  by (auto simp: read_sockaddr_def Let_def strlen_def c_str_snoc_NUL strcpy_def)

text \<open>
  C6 (amended). \<^verbatim>\<open>read_sockaddr\<close> never faults and takes at most 4095 bytes from the
  control pipe per call. It treats the bytes it read as one socket path that ends at the
  first embedded NUL, or at the end of the bytes read; a newline is not a terminator
  and stays in the path. It returns -1 and leaves the \<^verbatim>\<open>sockaddr\<close> alone when \<^verbatim>\<open>read\<close>
  fails and for every path whose length is greater than or equal to the size of
  \<^verbatim>\<open>sun_path\<close>; for every shorter path it copies the path into \<^verbatim>\<open>sun_path\<close> and returns 0.
\<close>

theorem read_sockaddr_first_NUL_terminates:
  "(\<exists>ret addr amt msgs. read_sockaddr control_pipe sockaddr = Inr (ret, addr, amt, msgs)
       \<and> amt \<le> 4095)
   \<and> read_sockaddr_path None sockaddr = Some (- 1, c_str (sun_path sockaddr))
   \<and> read_sockaddr_path (Some waiting) sockaddr =
       (if length (sun_path sockaddr) \<le> length (c_str (take 4095 waiting))
        then Some (- 1, c_str (sun_path sockaddr))
        else Some (0, c_str (take 4095 waiting)))"
proof -
  have a: "\<exists>ret addr amt msgs. read_sockaddr control_pipe sockaddr = Inr (ret, addr, amt, msgs)
       \<and> amt \<le> 4095"
    using read_sockaddr_characterised [of sockaddr]
    by (cases control_pipe) (auto simp: Let_def)
  have t: "take (min 4095 (length waiting)) waiting = take 4095 waiting"
    by (simp add: min_def)
  have b: "read_sockaddr_path (Some waiting) sockaddr =
       (if length (sun_path sockaddr) \<le> length (c_str (take 4095 waiting))
        then Some (- 1, c_str (sun_path sockaddr))
        else Some (0, c_str (take 4095 waiting)))"
    using read_sockaddr_characterised [of sockaddr waiting]
    by (simp add: read_sockaddr_path_def Let_def t c_str_append_NUL c_str_no_NUL)
  have c: "read_sockaddr_path None sockaddr = Some (- 1, c_str (sun_path sockaddr))"
    by (simp add: read_sockaddr_path_def read_sockaddr_def)
  from a b c show ?thesis by blast
qed

lemma sample_path_size: "length (sun_path sample_sockaddr) = 108"
  by (simp add: sample_sockaddr_def)

lemma read_sockaddr_short_path:
  assumes "NUL \<notin> set bytes" and "length bytes < 108"
  shows "read_sockaddr (Some bytes) sample_sockaddr
      = Inr (0, sample_sockaddr\<lparr>sun_path := bytes @ NUL # drop (length bytes + 1)
                                    (sun_path sample_sockaddr)\<rparr>, length bytes, [])"
  using assms read_sockaddr_characterised [of sample_sockaddr bytes]
  by (simp add: Let_def c_str_literal sample_path_size min_def)

theorem read_sockaddr_first_NUL_terminates_witness:
  "read_sockaddr_path (Some (''/tmp/s'' @ [NUL] @ ''rest'')) sample_sockaddr = Some (0, ''/tmp/s'')
   \<and> read_sockaddr_path (Some (replicate 108 (CHR ''a''))) sample_sockaddr
       = Some (- 1, c_str (sun_path sample_sockaddr))
   \<and> read_sockaddr_path (Some (replicate 107 (CHR ''a''))) sample_sockaddr
       = Some (0, replicate 107 (CHR ''a''))"
proof -
  have c1: "c_str (take 4095 (''/tmp/s'' @ [NUL] @ ''rest'')) = ''/tmp/s''"
    by (simp add: c_str_def)
  have c2: "c_str (take 4095 (replicate n (CHR ''a''))) = replicate (min 4095 n) (CHR ''a'')" for n
    by (simp add: c_str_def takeWhile_eq_all_conv min_def)
  from read_sockaddr_first_NUL_terminates [of None sample_sockaddr "''/tmp/s'' @ [NUL] @ ''rest''"]
    read_sockaddr_first_NUL_terminates [of None sample_sockaddr "replicate 108 (CHR ''a'')"]
    read_sockaddr_first_NUL_terminates [of None sample_sockaddr "replicate 107 (CHR ''a'')"]
  show ?thesis
    unfolding c1 c2 sample_path_size by simp
qed

text \<open>
  C6 as it is worded fails: the bytes \<^verbatim>\<open>/tmp/s\<close> followed by a newline are accepted, and
  the path copied to \<^verbatim>\<open>sun_path\<close> still ends in the newline, while the path up to the
  first NUL or newline is \<^verbatim>\<open>/tmp/s\<close>.
\<close>

theorem read_sockaddr_keeps_newline:
  "read_sockaddr_path (Some (''/tmp/s'' @ [CHR 0x0A])) sample_sockaddr
     = Some (0, ''/tmp/s'' @ [CHR 0x0A])
   \<and> line_terminated_path (''/tmp/s'' @ [CHR 0x0A]) = ''/tmp/s''
   \<and> read_sockaddr_path (Some (''/tmp/s'' @ [CHR 0x0A])) sample_sockaddr
     \<noteq> Some (0, line_terminated_path (''/tmp/s'' @ [CHR 0x0A]))"
proof -
  have "read_sockaddr_path (Some (''/tmp/s'' @ [CHR 0x0A])) sample_sockaddr
     = Some (0, ''/tmp/s'' @ [CHR 0x0A])"
    using read_sockaddr_characterised [of sample_sockaddr "''/tmp/s'' @ [CHR 0x0A]"]
    by (simp add: read_sockaddr_path_def Let_def c_str_def sample_sockaddr_def)
  moreover have "line_terminated_path (''/tmp/s'' @ [CHR 0x0A]) = ''/tmp/s''"
    by (simp add: line_terminated_path_def)
  ultimately show ?thesis by simp
qed


section \<open>The reconnection controller and an oversized path\<close>

text \<open>
  C2 (the code departs from the specification). When the control pipe is readable and the path
  read from it is too long for \<^verbatim>\<open>sun_path\<close>, \<^verbatim>\<open>read_sockaddr\<close> logs the error and
  returns -1, and \<^verbatim>\<open>run_single_server_reconnector\<close> sets \<^verbatim>\<open>retcode = EXIT_FAILURE\<close> and
  leaves its loop: it closes the control pipe and the link and returns, whatever
  turns would follow. No later path is processed.
\<close>

theorem run_single_server_reconnector_oversized_exits:
  assumes "length (sun_path addr) \<le> length (c_str (take 4095 bytes))"
  shows "run_single_server_reconnector addr control_pipe link flagged_token
           (path_event bytes fd # later)
         = ([Wp_error, Sys_close control_pipe, Sys_close link], Returned EXIT_FAILURE)"
proof -
  have t: "take (min 4095 (length bytes)) bytes = take 4095 bytes"
    by (simp add: min_def)
  from assms have "read_sockaddr (Some bytes) addr
      = Inr (- 1, addr, min 4095 (length bytes), [Wp_error])"
    using read_sockaddr_characterised [of addr bytes] by (simp add: Let_def t)
  then show ?thesis
    by (simp add: run_single_server_reconnector_def path_event_def)
qed

theorem run_single_server_reconnector_oversized_exits_witness:
  "length (sun_path sample_sockaddr) \<le> length (c_str (take 4095 (replicate 108 (CHR ''a''))))
   \<and> run_single_server_reconnector sample_sockaddr 3 4 \<lparr>header = 0x10007, key = (1, 2, 3)\<rparr>
        [path_event (replicate 108 (CHR ''a'')) 5, path_event ''/tmp/new'' 5]
      = ([Wp_error, Sys_close 3, Sys_close 4], Returned EXIT_FAILURE)"
proof -
  have h: "length (sun_path sample_sockaddr) \<le> length (c_str (take 4095 (replicate 108 (CHR ''a''))))"
    by (simp add: sample_sockaddr_def c_str_def takeWhile_eq_all_conv)
  from run_single_server_reconnector_oversized_exits [OF h, of 3 4 _ 5 "[path_event ''/tmp/new'' 5]"] h
  show ?thesis by simp
qed

text \<open>The valid path alone is processed: the flagged token is written and the descriptor sent.\<close>

lemma run_single_server_reconnector_valid_path:
  "run_single_server_reconnector sample_sockaddr 3 4 tok [path_event ''/tmp/new'' 5]
     = ([Sys_connect ''/tmp/new'' 5, Sys_write_token Replacement 5 tok 16,
         Sys_send_one_fd 4 5 0, Sys_close 5], Waiting)"
proof -
  have "read_sockaddr (Some ''/tmp/new'') sample_sockaddr
      = Inr (0, sample_sockaddr\<lparr>sun_path := ''/tmp/new'' @ NUL # drop (length ''/tmp/new'' + 1)
                                    (sun_path sample_sockaddr)\<rparr>, length ''/tmp/new'', [])"
    by (rule read_sockaddr_short_path) simp_all
  then show ?thesis
    by (simp add: run_single_server_reconnector_def path_event_def emit_def c_str_def)
qed

section \<open>Replacing the channel of every worker\<close>

lemma emit_simps [simp]:
  "emit pre (tr, x) = (pre @ tr, x)"
  by (simp add: emit_def)

lemma obs_append [simp]:
  "links_tried (a @ b) = links_tried a @ links_tried b"
  "delivered (a @ b) = delivered a @ delivered b"
  "connects (a @ b) = connects a @ connects b"
  "unlinks (a @ b) = unlinks a @ unlinks b"
  "socketpairs (a @ b) = socketpairs a + socketpairs b"
  "forks (a @ b) = forks a @ forks b"
  "worker_loops (a @ b) = worker_loops a @ worker_loops b"
  "tokens_written (a @ b) = tokens_written a @ tokens_written b"
  by (induction a rule: links_tried.induct; simp)+

lemma first_fails:
  "\<not> attempt_ok (env i) \<Longrightarrow>
   length (takeWhile attempt_ok (map env [i..<i + length (r # rs)])) = 0"
  by (simp add: upt_conv_Cons del: upt_Suc)

lemma first_ok:
  "attempt_ok (env i) \<Longrightarrow>
   length (takeWhile attempt_ok (map env [i..<i + length (r # rs)]))
     = Suc (length (takeWhile attempt_ok (map env [Suc i..<Suc i + length rs])))"
  by (simp add: upt_conv_Cons del: upt_Suc)

lemma update_loop_obs:
  "update_loop c p env i rs = (tr, ret) \<Longrightarrow>
   (\<exists>k m. k = length (takeWhile attempt_ok (map env [i..<i + length rs]))
     \<and> k \<le> m \<and> m \<le> Suc k \<and> m \<le> length rs
     \<and> map fst (delivered tr) = map linkfd (take k rs)
     \<and> tokens_written tr = map (flagged_of c) (take m rs)
     \<and> (\<exists>n. k \<le> n \<and> n \<le> m \<and> links_tried tr = map linkfd (take n rs))
     \<and> connects tr = replicate (min (Suc k) (length rs)) p
     \<and> unlinks tr = []
     \<and> ret = (if k = length rs then 0 else - 1))"
proof (induction rs arbitrary: i tr ret)
  case Nil
  then show ?case by simp
next
  case (Cons r rs)
  let ?a = "env i"
  let ?k = "length (takeWhile attempt_ok (map env [i..<i + length (r # rs)]))"
  let ?k' = "length (takeWhile attempt_ok (map env [Suc i..<Suc i + length rs]))"
  consider (conn) "at_connect ?a = - 1"
    | (wr) "at_connect ?a \<noteq> - 1" "at_write ?a \<noteq> 16"
    | (snd) "at_connect ?a \<noteq> - 1" "at_write ?a = 16" "at_send ?a = - 1"
    | (ok) "at_connect ?a \<noteq> - 1" "at_write ?a = 16" "at_send ?a \<noteq> - 1"
    by blast
  then show ?case
  proof cases
    case conn
    then have k: "?k = 0" by (intro first_fails) (simp add: attempt_ok_def)
    from conn Cons.prems have "tr = [Sys_connect p (- 1), Wp_error]" "ret = - 1"
      by (auto simp: Let_def)
    then show ?thesis unfolding k
      by (intro exI [of _ 0]) auto
  next
    case wr
    then have k: "?k = 0" by (intro first_fails) (simp add: attempt_ok_def)
    from wr Cons.prems have "tr = [Sys_connect p (at_connect ?a),
        Sys_write_token Replacement (at_connect ?a) (flag_update c (token r)) (at_write ?a),
        Wp_error, Sys_close (at_connect ?a)]" "ret = - 1"
      by (auto simp: Let_def)
    then show ?thesis unfolding k
      by (intro exI [of _ 0] exI [of _ 1]) (auto simp: flagged_of_def)
  next
    case snd
    then have k: "?k = 0" by (intro first_fails) (simp add: attempt_ok_def)
    from snd Cons.prems have "tr = [Sys_connect p (at_connect ?a),
        Sys_write_token Replacement (at_connect ?a) (flag_update c (token r)) 16,
        Sys_send_one_fd (linkfd r) (at_connect ?a) (- 1), Sys_close (at_connect ?a)]" "ret = - 1"
      by (auto simp: Let_def)
    then show ?thesis unfolding k
      by (intro exI [of _ 0] exI [of _ 1]) (auto simp: flagged_of_def intro: exI [of _ 1])
  next
    case ok
    then have k: "?k = Suc ?k'" by (intro first_ok) (simp add: attempt_ok_def)
    obtain tr' ret' where rest: "update_loop c p env (Suc i) rs = (tr', ret')"
      by (cases "update_loop c p env (Suc i) rs") auto
    from Cons.IH [OF rest] obtain m n where m:
      "?k' \<le> m" "m \<le> Suc ?k'" "m \<le> length rs"
      "map fst (delivered tr') = map linkfd (take ?k' rs)"
      "tokens_written tr' = map (flagged_of c) (take m rs)"
      "?k' \<le> n" "n \<le> m" "links_tried tr' = map linkfd (take n rs)"
      "connects tr' = replicate (min (Suc ?k') (length rs)) p"
      "unlinks tr' = []"
      "ret' = (if ?k' = length rs then 0 else - 1)"
      by auto
    from ok Cons.prems rest have tr: "tr = [Sys_connect p (at_connect ?a),
        Sys_write_token Replacement (at_connect ?a) (flag_update c (token r)) 16,
        Sys_send_one_fd (linkfd r) (at_connect ?a) (at_send ?a), Sys_close (at_connect ?a)] @ tr'"
      and ret: "ret = ret'"
      by (auto simp: Let_def)
    show ?thesis
      unfolding k tr ret using m ok
      by (intro exI [of _ "Suc ?k'"] exI [of _ "Suc m"]) (auto simp: flagged_of_def intro: exI [of _ "Suc n"])
  qed
qed


lemma update_set_flag_update: "update_set c (flag_update c tok)"
  by (simp add: update_set_def flag_update_def bit_eq_iff bit_and_iff bit_or_iff)


lemma sample_paths:
  "c_str (sun_path (sockaddr_at ''/old'')) = ''/old''"
  "c_str (sun_path (sockaddr_at ''/new'')) = ''/new''"
  by (simp_all add: sockaddr_at_def c_str_def)


section \<open>The connection table without a control pipe\<close>

lemma obs_closes [simp]:
  "links_tried (map Sys_close fds) = []"
  "delivered (map Sys_close fds) = []"
  "connects (map Sys_close fds) = []"
  "unlinks (map Sys_close fds) = []"
  "socketpairs (map Sys_close fds) = 0"
  "forks (map Sys_close fds) = []"
  "worker_loops (map Sys_close fds) = []"
  "tokens_written (map Sys_close fds) = []"
  by (induction fds) simp_all

lemma handle_new_without_pipe:
  assumes "handle_new_server_connection env cur (- 1) wdisplay_socket appfd cm tok = (tr, out, cm')"
  shows "cm' = cm \<and> socketpairs tr = 0
     \<and> forks tr = (if nc_connect env \<noteq> - 1 \<and> nc_write env = 16 then [nc_fork env] else [])
     \<and> worker_loops tr = (if nc_connect env \<noteq> - 1 \<and> nc_write env = 16 \<and> nc_fork env = 0
                           then [(nc_connect env, appfd, - 1)] else [])"
  using assms
  by (auto simp: handle_new_server_connection_def Let_def split: if_splits)

lemma control_turn_without_pipe:
  "control_turn c addr (- 1) unlink_at_end s e = Inr ([], s)"
  by (simp add: control_turn_def)

lemma display_turn_without_pipe:
  assumes "connmap s = []" and "socketpairs tr1 = 0"
  shows "case display_turn (- 1) wdisplay_socket tr1 s e of
           Again tr s' \<Rightarrow> connmap s' = [] \<and> socketpairs tr = 0
         | Stop tr out s' \<Rightarrow> connmap s' = [] \<and> socketpairs tr = 0"
proof -
  obtain tr2 out cm where h: "handle_new_server_connection (me_new_conn e) (current_sockaddr s)
      (- 1) wdisplay_socket (me_accept e) [] (fill_random_key (me_rand e) (cur_token s))
      = (tr2, out, cm)"
    by (metis prod_cases3)
  from handle_new_without_pipe [OF h] have "cm = []" "socketpairs tr2 = 0" by simp_all
  with h assms show ?thesis
    by (cases out) (simp_all add: display_turn_def Let_def)
qed

lemma multi_turn_without_pipe:
  assumes "connmap s = []"
  shows "case multi_turn c addr (- 1) unlink_at_end wdisplay_socket s e of
           Again tr s' \<Rightarrow> connmap s' = [] \<and> socketpairs tr = 0
         | Stop tr out s' \<Rightarrow> connmap s' = [] \<and> socketpairs tr = 0"
proof -
  let ?s1 = "s\<lparr>connmap := wait_for_pid_and_clean (me_exited e) (connmap s)\<rparr>"
  have s1: "connmap ?s1 = []" using assms by (simp add: wait_for_pid_and_clean_def)
  from display_turn_without_pipe [OF s1, of "[]" wdisplay_socket e] s1 assms
  show ?thesis
    by (simp add: multi_turn_def Let_def control_turn_without_pipe)
qed

lemma multi_loop_without_pipe:
  assumes "connmap s = []"
    and "multi_loop c addr (- 1) unlink_at_end wdisplay_socket s events = (tr, out, s')"
  shows "connmap s' = [] \<and> socketpairs tr = 0"
  using assms
proof (induction events arbitrary: s tr out s')
  case Nil
  then show ?case by simp
next
  case (Cons e es)
  show ?case
  proof (cases "multi_turn c addr (- 1) unlink_at_end wdisplay_socket s e")
    case (Again tr1 s1)
    with multi_turn_without_pipe [OF Cons.prems(1), of c addr unlink_at_end wdisplay_socket e]
    have s1: "connmap s1 = []" "socketpairs tr1 = 0" by simp_all
    obtain tr2 out2 s2 where rest:
      "multi_loop c addr (- 1) unlink_at_end wdisplay_socket s1 es = (tr2, out2, s2)"
      by (metis prod_cases3)
    from Cons.IH [OF s1(1) rest] Cons.prems(2) Again rest s1 show ?thesis
      by (auto simp: emit_def)
  next
    case (Stop tr1 out1 s1)
    with multi_turn_without_pipe [OF Cons.prems(1), of c addr unlink_at_end wdisplay_socket e]
      Cons.prems(2)
    show ?thesis by simp
  qed
qed

text \<open>
  C10. Without a control pipe (\<^verbatim>\<open>control_pipe == -1\<close>) a call of
  \<^verbatim>\<open>handle_new_server_connection\<close> makes no socket pair and leaves the connection table
  as it is; it forks exactly when the channel was opened and the token written, and the
  forked worker runs \<^verbatim>\<open>main_interface_loop\<close> with link descriptor -1. In
  \<^verbatim>\<open>run_multi_server\<close>, where the table starts empty, the table is therefore still
  empty when the loop ends, after any sequence of turns, and the whole trace holds no
  socket pair.
\<close>

theorem no_control_pipe_no_link:
  "(handle_new_server_connection env cur (- 1) wdisplay_socket appfd cm tok = (tr, out, cm')
      \<longrightarrow> cm' = cm \<and> socketpairs tr = 0
        \<and> forks tr = (if nc_connect env \<noteq> - 1 \<and> nc_write env = 16 then [nc_fork env] else [])
        \<and> worker_loops tr = (if nc_connect env \<noteq> - 1 \<and> nc_write env = 16 \<and> nc_fork env = 0
                              then [(nc_connect env, appfd, - 1)] else []))
   \<and> (run_multi_server c addr events (- 1) socket_addr unlink_at_end wdisplay_socket
        = (mtr, mout, table)
      \<longrightarrow> table = [] \<and> socketpairs mtr = 0)"
proof -
  have "table = [] \<and> socketpairs mtr = 0"
    if run: "run_multi_server c addr events (- 1) socket_addr unlink_at_end wdisplay_socket
        = (mtr, mout, table)"
  proof -
    let ?start = "\<lparr> connmap = [], current_sockaddr = socket_addr,
                    cur_token = \<lparr> header = conntoken_header c False False,
                                  key = (0, 0, 0) \<rparr> \<rparr>"
    obtain tr0 out0 s0 where loop:
      "multi_loop c addr (- 1) unlink_at_end wdisplay_socket ?start events = (tr0, out0, s0)"
      by (metis prod_cases3)
    have "connmap ?start = []" by simp
    from multi_loop_without_pipe [OF this loop] have "connmap s0 = []" "socketpairs tr0 = 0"
      by simp_all
    with run loop show ?thesis
      by (cases out0) (auto simp: run_multi_server_def)
  qed
  with handle_new_without_pipe show ?thesis by blast
qed


theorem no_control_pipe_no_link_witness:
  "run_multi_server sample_consts sample_sockaddr [accept_event 5 200, accept_event 6 201] (- 1)
      (sockaddr_at ''/chan'') False 4
   = ([Sys_connect ''/chan'' 20,
       Sys_write_token Fresh 20 \<lparr>header = 0x10001, key = (11, 12, 13)\<rparr> 16,
       Sys_fork 200, Sys_close 20, Sys_close 5,
       Sys_connect ''/chan'' 20,
       Sys_write_token Fresh 20 \<lparr>header = 0x10001, key = (11, 12, 13)\<rparr> 16,
       Sys_fork 201, Sys_close 20, Sys_close 6],
      Waiting, [])
   \<and> handle_new_server_connection (sample_new_conn 0) (sockaddr_at ''/chan'') (- 1) 4 5 [] \<lparr>header = 0x10001, key = (11, 12, 13)\<rparr>
   = ([Sys_connect ''/chan'' 20, Sys_write_token Fresh 20 \<lparr>header = 0x10001, key = (11, 12, 13)\<rparr> 16, Sys_fork 0, Sys_close 4,
       Main_interface_loop 20 5 (- 1), Check_unclosed_fds, Sys_exit 0],
      Exited 0, [])"
proof -
  have p: "c_str (sun_path (sockaddr_at ''/chan'')) = ''/chan''"
    by (simp add: sockaddr_at_def c_str_def)
  have h: "handle_new_server_connection (sample_new_conn 0) (sockaddr_at ''/chan'') (- 1) 4 5 [] \<lparr>header = 0x10001, key = (11, 12, 13)\<rparr>
   = ([Sys_connect ''/chan'' 20, Sys_write_token Fresh 20 \<lparr>header = 0x10001, key = (11, 12, 13)\<rparr> 16, Sys_fork 0, Sys_close 4,
       Main_interface_loop 20 5 (- 1), Check_unclosed_fds, Sys_exit 0],
      Exited 0, [])"
    by (simp add: handle_new_server_connection_def sample_new_conn_def p Let_def)
  obtain mtr mout table where run:
    "run_multi_server sample_consts sample_sockaddr [accept_event 5 200, accept_event 6 201] (- 1)
      (sockaddr_at ''/chan'') False 4 = (mtr, mout, table)"
    by (metis prod_cases3)
  from no_control_pipe_no_link [of "sample_new_conn 0" "sockaddr_at ''/chan''" 4 5 "[]"
      "\<lparr>header = 0x10001, key = (11, 12, 13)\<rparr>"]
    run h
  have table: "table = []" by blast
  have "fst (run_multi_server sample_consts sample_sockaddr [accept_event 5 200, accept_event 6 201]
           (- 1) (sockaddr_at ''/chan'') False 4)
      = [Sys_connect ''/chan'' 20,
       Sys_write_token Fresh 20 \<lparr>header = 0x10001, key = (11, 12, 13)\<rparr> 16,
       Sys_fork 200, Sys_close 20, Sys_close 5,
       Sys_connect ''/chan'' 20,
       Sys_write_token Fresh 20 \<lparr>header = 0x10001, key = (11, 12, 13)\<rparr> 16,
       Sys_fork 201, Sys_close 20, Sys_close 6]
     \<and> fst (snd (run_multi_server sample_consts sample_sockaddr
          [accept_event 5 200, accept_event 6 201] (- 1) (sockaddr_at ''/chan'') False 4)) = Waiting"
    by (simp add: run_multi_server_def multi_turn_def control_turn_def display_turn_def
        accept_event_def wait_for_pid_and_clean_def handle_new_server_connection_def
        sample_new_conn_def fill_random_key_def sample_rand_def p Let_def emit_def
        conntoken_header_def sample_consts_def)
  with run table h show ?thesis by simp
qed

section \<open>Tokens on fresh and on replacement channels\<close>

lemma roles_ok_append:
  "roles_ok c seen (a @ b) \<longleftrightarrow>
     roles_ok c seen a \<and> roles_ok c (rev (map snd (filter (\<lambda>rt. fst rt = Fresh) a)) @ seen) b"
  by (induction c seen a rule: roles_ok.induct) auto

lemma roles_ok_mono:
  "roles_ok c seen ts \<Longrightarrow> set seen \<subseteq> set seen' \<Longrightarrow> roles_ok c seen' ts"
proof (induction c seen ts arbitrary: seen' rule: roles_ok.induct)
  case (1 c seen)
  then show ?case by simp
next
  case (2 c seen tok ts)
  from "2.prems" have "set (tok # seen) \<subseteq> set (tok # seen')" by auto
  with "2.IH" [of "tok # seen'"] "2.prems" show ?case by simp
next
  case (3 c seen tok ts)
  then show ?case by (auto simp: list_ex_iff)
qed

lemma key_flag_update: "key (flag_update c tok) = key tok"
  by (simp add: flag_update_def)

lemma replaces_flag_update: "replaces c (flag_update c tok) tok"
  by (simp add: replaces_def flag_update_def)

lemma roles_ok_replacements:
  "set toks \<subseteq> set seen \<Longrightarrow>
   roles_ok c seen (map (\<lambda>tok. (Replacement, flag_update c tok)) toks)"
  by (induction toks) (auto simp: update_set_flag_update list_ex_iff intro: replaces_flag_update)

lemma fresh_header_clear:
  assumes "update_bit_apart c"
  shows "conntoken_header c reconnectable False AND CONN_UPDATE_BIT c = 0"
proof -
  let ?others = "push_bit 16 (WAYPIPE_PROTOCOL_VERSION c) OR CONN_RECONNECTABLE_BIT c OR CONN_FIXED_BIT c"
  from assms have z: "CONN_UPDATE_BIT c AND ?others = 0" by (simp add: update_bit_apart_def)
  have "\<not> (bit (CONN_UPDATE_BIT c) n \<and> bit ?others n)" for n
    using z by (metis bit_and_iff bit_0_eq bot_apply bot_bool_def)
  then show ?thesis
    by (auto simp: conntoken_header_def bit_eq_iff bit_and_iff bit_or_iff)
qed

lemma read_sockaddr_msgs:
  "read_sockaddr p a = Inr (ret, a', n, msgs) \<Longrightarrow> tokens_written msgs = []"
  by (auto simp: read_sockaddr_def Let_def split: option.splits if_splits sum.splits)

lemma reconnector_loop_tokens:
  "set (tokens_written (fst (reconnector_loop addr link ft es))) \<subseteq> {(Replacement, ft)}"
proof (induction es)
  case Nil
  show ?case by simp
next
  case (Cons e es)
  then show ?case
    by (auto simp: emit_def Let_def read_sockaddr_msgs split: sum.splits prod.splits)
qed

lemma run_single_server_reconnector_tokens:
  "set (tokens_written (fst (run_single_server_reconnector addr cp link ft es)))
     \<subseteq> {(Replacement, ft)}"
proof -
  obtain tr out where l: "reconnector_loop addr link ft es = (tr, out)"
    by (cases "reconnector_loop addr link ft es") auto
  with reconnector_loop_tokens [of addr link ft es] show ?thesis
    by (cases out) (auto simp: run_single_server_reconnector_def)
qed

lemma roles_ok_same_replacement:
  "set ts \<subseteq> {(Replacement, flag_update c tok)} \<Longrightarrow> tok \<in> set seen \<Longrightarrow> roles_ok c seen ts"
  by (induction ts) (auto simp: update_set_flag_update list_ex_iff intro: replaces_flag_update)

lemma run_single_server_tokens:
  assumes "run_single_server c addr env control_pipe socket_addr unlink_at_end server_link = (tr, out)"
  shows "tokens_written tr = [] \<or>
     (\<exists>tok rest. tokens_written tr = (Fresh, tok) # rest
        \<and> header tok = conntoken_header c (control_pipe \<noteq> - 1) False
        \<and> set rest \<subseteq> {(Replacement, flag_update c tok)})"
proof -
  let ?tok = "(fill_random_key (se_rand env) \<lparr> header = 0, key = (0, 0, 0) \<rparr>)
                  \<lparr>header := conntoken_header c (control_pipe \<noteq> - 1) False\<rparr>"
  obtain rtr rout where r: "run_single_server_reconnector addr control_pipe (snd (se_linkfds env))
      (flag_update c ?tok) (se_events env) = (rtr, rout)"
    by (metis prod.exhaust)
  with run_single_server_reconnector_tokens [of addr control_pipe "snd (se_linkfds env)"
      "flag_update c ?tok" "se_events env"]
  have rt: "set (tokens_written rtr) \<subseteq> {(Replacement, flag_update c ?tok)}" by simp
  have hd: "header ?tok = conntoken_header c (control_pipe \<noteq> - 1) False" by simp
  from assms r rt show ?thesis
    apply (cases rout)
    apply (auto simp: run_single_server_def Let_def split: if_splits)
    done
qed


lemma update_connections_tokens:
  assumes "update_connections c env cur new cm u = (tr, ret, cur')"
  shows "\<exists>m. tokens_written tr = map (flagged_of c) (take m cm)"
proof -
  obtain tr0 ret0 where loop: "update_loop c (c_str (sun_path new)) env 0 cm = (tr0, ret0)"
    by (cases "update_loop c (c_str (sun_path new)) env 0 cm") auto
  from update_loop_obs [OF loop] obtain m where
    "tokens_written tr0 = map (flagged_of c) (take m cm)" by auto
  moreover from assms loop have "tokens_written tr = tokens_written tr0"
    by (auto simp: update_connections_def split: if_splits)
  ultimately show ?thesis by auto
qed

lemma control_turn_tokens:
  assumes "control_turn c addr cp u s e = Inr (tr, s')"
  shows "connmap s' = connmap s \<and> cur_token s' = cur_token s
     \<and> (\<exists>m. tokens_written tr = map (flagged_of c) (take m (connmap s)))"
proof (cases "cp \<noteq> - 1 \<and> me_ctl_in e")
  case False
  with assms show ?thesis
    by (auto simp: control_turn_def intro: exI [of _ 0])
next
  case True
  with assms obtain ret new_sockaddr amt msgs where
    rd: "read_sockaddr (me_pipe e) addr = Inr (ret, new_sockaddr, amt, msgs)"
    by (auto simp: control_turn_def split: sum.splits)
  note m = read_sockaddr_msgs [OF rd]
  show ?thesis
  proof (cases "ret = - 1")
    case True
    with assms rd m \<open>cp \<noteq> - 1 \<and> me_ctl_in e\<close> show ?thesis
      by (auto simp: control_turn_def intro: exI [of _ 0])
  next
    case False
    obtain utr ret2 cur where up: "update_connections c (me_update e) (current_sockaddr s)
        new_sockaddr (connmap s) u = (utr, ret2, cur)"
      by (metis prod_cases3)
    from update_connections_tokens [OF up] obtain k where
      "tokens_written utr = map (flagged_of c) (take k (connmap s))" by blast
    with assms rd m up False \<open>cp \<noteq> - 1 \<and> me_ctl_in e\<close> show ?thesis
      by (auto simp: control_turn_def)
  qed
qed

lemma handle_new_tokens:
  assumes "handle_new_server_connection env cur cp wd appfd cm tok = (tr, out, cm')"
  shows "(tokens_written tr = [] \<and> cm' = cm)
     \<or> (tokens_written tr = [(Fresh, tok)] \<and> set (map token cm') \<subseteq> insert tok (set (map token cm)))"
  using assms
  by (auto simp: handle_new_server_connection_def Let_def split: if_splits)

lemma display_turn_tokens:
  "\<exists>tr2. turn_trace (display_turn cp wd tr1 s e) = tr1 @ tr2
     \<and> header (cur_token (turn_state (display_turn cp wd tr1 s e))) = header (cur_token s)
     \<and> ((tokens_written tr2 = []
           \<and> connmap (turn_state (display_turn cp wd tr1 s e)) = connmap s)
         \<or> (\<exists>tok. tokens_written tr2 = [(Fresh, tok)] \<and> header tok = header (cur_token s)
              \<and> set (map token (connmap (turn_state (display_turn cp wd tr1 s e))))
                   \<subseteq> insert tok (set (map token (connmap s)))))"
proof -
  let ?tok = "fill_random_key (me_rand e) (cur_token s)"
  have hd: "header ?tok = header (cur_token s)"
    by (simp add: fill_random_key_def Let_def split: prod.splits)
  obtain tr2 out cm where h: "handle_new_server_connection (me_new_conn e) (current_sockaddr s)
      cp wd (me_accept e) (connmap s) ?tok = (tr2, out, cm)"
    by (metis prod_cases3)
  from handle_new_tokens [OF h] hd h show ?thesis
    by (cases out) (auto simp: display_turn_def Let_def)
qed

lemma multi_turn_tokens:
  assumes apart: "update_bit_apart c"
    and hd: "header (cur_token s) = conntoken_header c r False"
    and seen: "set (map token (connmap s)) \<subseteq> set seen"
  shows "roles_ok c seen (tokens_written (turn_trace (multi_turn c addr cp u wd s e)))
     \<and> header (cur_token (turn_state (multi_turn c addr cp u wd s e))) = conntoken_header c r False
     \<and> set (map token (connmap (turn_state (multi_turn c addr cp u wd s e))))
         \<subseteq> set (rev (map snd (filter (\<lambda>rt. fst rt = Fresh)
               (tokens_written (turn_trace (multi_turn c addr cp u wd s e))))) @ seen)"
proof -
  let ?s1 = "s\<lparr>connmap := wait_for_pid_and_clean (me_exited e) (connmap s)\<rparr>"
  have s1: "set (map token (connmap ?s1)) \<subseteq> set seen" "header (cur_token ?s1) = conntoken_header c r False"
    using seen hd by (auto simp: wait_for_pid_and_clean_def)
  show ?thesis
  proof (cases "me_shutdown e \<or> me_child_died e \<or> me_poll e = - 1 \<or> me_poll e = 0")
    case True
    with s1 seen hd show ?thesis
      by (auto simp: multi_turn_def Let_def)
  next
    case False
    show ?thesis
    proof (cases "control_turn c addr cp u ?s1 e")
      case (Inl f)
      with False s1 show ?thesis
        by (auto simp: multi_turn_def Let_def)
    next
      case (Inr p)
      then obtain tr1 s2 where ct: "control_turn c addr cp u ?s1 e = Inr (tr1, s2)"
        by (cases p) auto
      from control_turn_tokens [OF ct] obtain m where s2:
        "connmap s2 = connmap ?s1" "cur_token s2 = cur_token ?s1"
        "tokens_written tr1 = map (flagged_of c) (take m (connmap ?s1))" by blast
      have t1: "tokens_written tr1
          = map (\<lambda>tok. (Replacement, flag_update c tok)) (map token (take m (connmap ?s1)))"
        by (simp add: s2(3) flagged_of_def)
      have "set (map token (take m (connmap ?s1))) \<subseteq> set seen"
        using s1(1) by (auto dest: in_set_takeD)
      then have ok1: "roles_ok c seen (tokens_written tr1)"
        unfolding t1 by (rule roles_ok_replacements)
      have nofresh: "filter (\<lambda>rt. fst rt = Fresh) (tokens_written tr1) = []"
        by (simp add: t1 filter_empty_conv)
      have mt: "multi_turn c addr cp u wd s e = display_turn cp wd tr1 s2 e"
        using False ct by (simp add: multi_turn_def Let_def)
      from display_turn_tokens [of cp wd tr1 s2 e] obtain tr2 where d:
        "turn_trace (display_turn cp wd tr1 s2 e) = tr1 @ tr2"
        "header (cur_token (turn_state (display_turn cp wd tr1 s2 e))) = header (cur_token s2)"
        "(tokens_written tr2 = []
           \<and> connmap (turn_state (display_turn cp wd tr1 s2 e)) = connmap s2)
         \<or> (\<exists>tok. tokens_written tr2 = [(Fresh, tok)] \<and> header tok = header (cur_token s2)
              \<and> set (map token (connmap (turn_state (display_turn cp wd tr1 s2 e))))
                   \<subseteq> insert tok (set (map token (connmap s2))))"
        by blast
      from d(3) show ?thesis
      proof
        assume a: "tokens_written tr2 = []
           \<and> connmap (turn_state (display_turn cp wd tr1 s2 e)) = connmap s2"
        with ok1 nofresh d(1,2) s2 s1 show ?thesis
          unfolding mt by (simp add: obs_append)
      next
        assume "\<exists>tok. tokens_written tr2 = [(Fresh, tok)] \<and> header tok = header (cur_token s2)
              \<and> set (map token (connmap (turn_state (display_turn cp wd tr1 s2 e))))
                   \<subseteq> insert tok (set (map token (connmap s2)))"
        then obtain tok where tok: "tokens_written tr2 = [(Fresh, tok)]"
          "header tok = header (cur_token s2)"
          "set (map token (connmap (turn_state (display_turn cp wd tr1 s2 e))))
                   \<subseteq> insert tok (set (map token (connmap s2)))" by blast
        have "update_clear c tok"
          using tok(2) s2(2) s1(2) fresh_header_clear [OF apart, of r]
          by (simp add: update_clear_def)
        then have A: "roles_ok c seen (tokens_written (tr1 @ tr2))"
          using ok1 nofresh tok(1) by (simp add: obs_append roles_ok_append)
        have fr: "rev (map snd (filter (\<lambda>rt. fst rt = Fresh) (tokens_written (tr1 @ tr2)))) = [tok]"
          using nofresh tok(1) by (simp add: obs_append)
        have "set (map token (connmap (turn_state (display_turn cp wd tr1 s2 e))))
            \<subseteq> insert tok (set seen)"
          using tok(3) s1(1) unfolding s2(1) by (meson insert_mono subset_trans)
        then have C: "set (map token (connmap (turn_state (display_turn cp wd tr1 s2 e))))
            \<subseteq> set (rev (map snd (filter (\<lambda>rt. fst rt = Fresh) (tokens_written (tr1 @ tr2)))) @ seen)"
          unfolding fr by simp
        from A C d(1,2) s2(2) s1(2) show ?thesis
          unfolding mt by simp
      qed
    qed
  qed
qed

lemma multi_loop_tokens:
  assumes "update_bit_apart c"
    and "header (cur_token s) = conntoken_header c r False"
    and "set (map token (connmap s)) \<subseteq> set seen"
  shows "roles_ok c seen (tokens_written (fst (multi_loop c addr cp u wd s es)))"
  using assms(2,3)
proof (induction es arbitrary: s seen)
  case Nil
  show ?case by simp
next
  case (Cons e es)
  let ?T = "multi_turn c addr cp u wd s e"
  note t = multi_turn_tokens [OF assms(1) Cons.prems, of addr cp u wd e]
  show ?case
  proof (cases ?T)
    case (Stop tr out s')
    with t show ?thesis by simp
  next
    case (Again tr s')
    with t have "roles_ok c seen (tokens_written tr)"
      "header (cur_token s') = conntoken_header c r False"
      "set (map token (connmap s')) \<subseteq> set (rev (map snd (filter (\<lambda>rt. fst rt = Fresh)
               (tokens_written tr))) @ seen)" by simp_all
    with Cons.IH [OF this(2,3)] Again show ?thesis
      by (simp add: emit_def obs_append roles_ok_append)
  qed
qed

lemma run_multi_server_tokens:
  assumes "update_bit_apart c"
  shows "tokens_ok c (fst (run_multi_server c addr events cp socket_addr u wd))"
proof -
  let ?start = "\<lparr> connmap = [], current_sockaddr = socket_addr,
                  cur_token = \<lparr> header = conntoken_header c (cp \<noteq> - 1) False,
                                key = (0, 0, 0) \<rparr> \<rparr>"
  obtain tr out s where loop: "multi_loop c addr cp u wd ?start events = (tr, out, s)"
    by (metis prod_cases3)
  have "roles_ok c [] (tokens_written (fst (multi_loop c addr cp u wd ?start events)))"
    by (rule multi_loop_tokens [OF assms, of _ "cp \<noteq> - 1"]) simp_all
  with loop have ok: "roles_ok c [] (tokens_written tr)" by simp
  have closes: "tokens_written (map (\<lambda>r. Sys_close (linkfd r)) cm) = []" for cm
    by (induction cm) simp_all
  from loop ok show ?thesis
    by (cases out) (simp_all add: run_multi_server_def tokens_ok_def obs_append closes)
qed




section \<open>Waiting for the thread pool\<close>

lemma take_front_cases:
  assumes "take_front pool = Inr (task, unlocked)"
  shows "(task = None \<and> unlocked = pool)
     \<or> (\<exists>x. task = Some x \<and> queue_start pool < queue_end pool
           \<and> 0 \<le> queue_start pool \<and> nat (queue_start pool) < length (queue pool)
           \<and> x = queue pool ! nat (queue_start pool) \<and> task_type x \<noteq> TASK_STOP
           \<and> unlocked = pool\<lparr>queue_start := queue_start pool + 1,
                               queue_in_progress := queue_in_progress pool + 1\<rparr>)"
  using assms
  by (auto simp: take_front_def Let_def split: if_splits)

lemma wait_for_thread_pool_iterations:
  "wait_for_thread_pool turns pool = (its, res) \<Longrightarrow>
     list_all iteration_ok its
     \<and> list_all (\<lambda>it. \<not> it_done it) (butlast its)
     \<and> (res = Drained \<longleftrightarrow> its \<noteq> [] \<and> it_done (last its))"
proof (induction turns arbitrary: pool its res)
  case Nil
  then show ?case by simp
next
  case (Cons t ts)
  let ?locked = "pt_before t pool"
  show ?case
  proof (cases "take_front ?locked")
    case (Inl f)
    with Cons.prems show ?thesis by (auto simp: Let_def)
  next
    case (Inr p)
    then obtain task unlocked where tf: "take_front ?locked = Inr (task, unlocked)"
      by (cases p) auto
    let ?relocked = "case task of Some x \<Rightarrow> pt_during t unlocked | None \<Rightarrow> unlocked"
    let ?ended = "case task of
                    Some x \<Rightarrow> ?relocked\<lparr>queue_in_progress := queue_in_progress ?relocked - 1\<rparr>
                  | None \<Rightarrow> ?relocked"
    let ?done = "queue_end ?locked = queue_start ?locked \<and> queue_in_progress ?locked = 0"
    let ?it = "\<lparr> it_locked = ?locked, it_done = ?done, it_task = task,
                 it_unlocked = unlocked, it_relocked = ?relocked, it_end = ?ended \<rparr>"
    have ok: "iteration_ok ?it"
      using take_front_cases [OF tf]
      by (auto simp: iteration_ok_def)
    show ?thesis
    proof (cases ?done)
      case True
      with Cons.prems tf have "its = [?it]" "res = Drained"
        by (auto simp: Let_def)
      with ok True show ?thesis by simp
    next
      case False
      obtain its' res' where rest: "wait_for_thread_pool ts ?ended = (its', res')"
        by (cases "wait_for_thread_pool ts ?ended") auto
      with Cons.prems tf False have "its = ?it # its'" "res = res'"
        by (auto simp: Let_def emit_def)
      with Cons.IH [OF rest] ok False show ?thesis
        by (cases its') (auto simp: Let_def)
    qed
  qed
qed


text \<open>
  C8. \<^verbatim>\<open>wait_for_thread_pool\<close> returns only from an iteration whose locked check found
  \<^verbatim>\<open>queue_start == queue_end\<close> and \<^verbatim>\<open>queue_in_progress == 0\<close>, and every earlier iteration
  found otherwise. In each iteration it takes at most one task, the one at the front of
  the queue, and never a \<^verbatim>\<open>TASK_STOP\<close> task; when it takes none the pool is left as it
  was; when it takes one, \<^verbatim>\<open>queue_start\<close> and \<^verbatim>\<open>queue_in_progress\<close> are incremented
  before the task runs and \<^verbatim>\<open>queue_in_progress\<close> is decremented after the run. This
  holds for every behaviour of the worker threads between the critical sections.
\<close>

theorem wait_for_thread_pool_returns_when_drained:
  assumes "wait_for_thread_pool turns pool = (its, res)"
  shows "(res = Drained \<longrightarrow>
            its \<noteq> [] \<and> queue_start (it_locked (last its)) = queue_end (it_locked (last its))
            \<and> queue_in_progress (it_locked (last its)) = 0)
     \<and> list_all (\<lambda>it. \<not> (queue_start (it_locked it) = queue_end (it_locked it)
                          \<and> queue_in_progress (it_locked it) = 0)) (butlast its)
     \<and> list_all (\<lambda>it.
          queue (it_unlocked it) = queue (it_locked it)
          \<and> queue_end (it_unlocked it) = queue_end (it_locked it)
          \<and> (case it_task it of
                None \<Rightarrow> it_unlocked it = it_locked it \<and> it_end it = it_locked it
              | Some x \<Rightarrow>
                  x = queue (it_locked it) ! nat (queue_start (it_locked it))
                  \<and> task_type x \<noteq> TASK_STOP
                  \<and> queue_start (it_unlocked it) = queue_start (it_locked it) + 1
                  \<and> queue_in_progress (it_unlocked it) = queue_in_progress (it_locked it) + 1
                  \<and> queue_in_progress (it_end it) = queue_in_progress (it_relocked it) - 1
                  \<and> queue_start (it_end it) = queue_start (it_relocked it))) its"
proof -
  note w = wait_for_thread_pool_iterations [OF assms]
  have flag: "it_done it \<longleftrightarrow> queue_start (it_locked it) = queue_end (it_locked it)
                      \<and> queue_in_progress (it_locked it) = 0"
    if "it \<in> set its" for it
    using w that by (auto simp: list_all_iff iteration_ok_def)
  have "queue_start (it_locked (last its)) = queue_end (it_locked (last its))
            \<and> queue_in_progress (it_locked (last its)) = 0" if "res = Drained"
  proof -
    from w that have "its \<noteq> []" "it_done (last its)" by auto
    with flag [of "last its"] show ?thesis by simp
  qed
  moreover have "list_all (\<lambda>it. \<not> (queue_start (it_locked it) = queue_end (it_locked it)
                          \<and> queue_in_progress (it_locked it) = 0)) (butlast its)"
    using w flag by (auto simp: list_all_iff dest: in_set_butlastD)
  moreover have "list_all (\<lambda>it.
          queue (it_unlocked it) = queue (it_locked it)
          \<and> queue_end (it_unlocked it) = queue_end (it_locked it)
          \<and> (case it_task it of
                None \<Rightarrow> it_unlocked it = it_locked it \<and> it_end it = it_locked it
              | Some x \<Rightarrow>
                  x = queue (it_locked it) ! nat (queue_start (it_locked it))
                  \<and> task_type x \<noteq> TASK_STOP
                  \<and> queue_start (it_unlocked it) = queue_start (it_locked it) + 1
                  \<and> queue_in_progress (it_unlocked it) = queue_in_progress (it_locked it) + 1
                  \<and> queue_in_progress (it_end it) = queue_in_progress (it_relocked it) - 1
                  \<and> queue_start (it_end it) = queue_start (it_relocked it))) its"
    using w by (auto simp: list_all_iff iteration_ok_def split: option.splits)
  ultimately show ?thesis using w by auto
qed

theorem wait_for_thread_pool_returns_when_drained_witness:
  "snd (wait_for_thread_pool [quiet, quiet, quiet] one_task_pool) = Drained
   \<and> map it_task (fst (wait_for_thread_pool [quiet, quiet, quiet] one_task_pool))
       = [Some (work 7), None]
   \<and> map (\<lambda>it. queue_in_progress (it_unlocked it))
         (fst (wait_for_thread_pool [quiet, quiet, quiet] one_task_pool)) = [1, 0]
   \<and> queue_start (it_locked (last (fst (wait_for_thread_pool [quiet, quiet, quiet] one_task_pool))))
       = queue_end (it_locked (last (fst (wait_for_thread_pool [quiet, quiet, quiet] one_task_pool))))
   \<and> snd (wait_for_thread_pool [quiet, quiet, quiet] (one_task_pool\<lparr>queue := [stop_task]\<rparr>))
       = Still_waiting
   \<and> map it_task (fst (wait_for_thread_pool [quiet, quiet, quiet]
         (one_task_pool\<lparr>queue := [stop_task]\<rparr>))) = [None, None, None]"
proof -
  have run: "snd (wait_for_thread_pool [quiet, quiet, quiet] one_task_pool) = Drained
   \<and> map it_task (fst (wait_for_thread_pool [quiet, quiet, quiet] one_task_pool))
       = [Some (work 7), None]
   \<and> map (\<lambda>it. queue_in_progress (it_unlocked it))
         (fst (wait_for_thread_pool [quiet, quiet, quiet] one_task_pool)) = [1, 0]"
    by (simp add: quiet_def one_task_pool_def work_def take_front_def Let_def emit_def)
  have stop: "snd (wait_for_thread_pool [quiet, quiet, quiet] (one_task_pool\<lparr>queue := [stop_task]\<rparr>))
       = Still_waiting
   \<and> map it_task (fst (wait_for_thread_pool [quiet, quiet, quiet]
         (one_task_pool\<lparr>queue := [stop_task]\<rparr>))) = [None, None, None]"
    by (simp add: quiet_def one_task_pool_def stop_task_def take_front_def Let_def emit_def)
  from wait_for_thread_pool_returns_when_drained
    [OF surjective_pairing [of "wait_for_thread_pool [quiet, quiet, quiet] one_task_pool"]] run
  have "queue_start (it_locked (last (fst (wait_for_thread_pool [quiet, quiet, quiet] one_task_pool))))
       = queue_end (it_locked (last (fst (wait_for_thread_pool [quiet, quiet, quiet] one_task_pool))))"
    by blast
  with run stop show ?thesis by blast
qed

section \<open>The five passes of the mirror test\<close>

lemma memset_none: "memset data start v 0 = data"
  by (simp add: memset_def)

lemma update_file_result:
  assumes "update_file rng pos ok data sz seqno = (nd, data', pos')"
  shows "nd = - 1 \<or> (0 \<le> nd \<and> (nd = 0 \<longrightarrow> data' = data))"
  using assms
  by (auto simp: update_file_def Let_def memset_none split: if_splits)

lemma test_transfer_passed:
  assumes "test_transfer eng st fwd maps_ok sending receiving ndiff = (True, received, st')"
  shows "if ndiff = 0 then received = receiving else received = Some sending"
  using assms
  by (auto simp: test_transfer_def check_match_def split: prod.splits if_splits)

lemma later_passes:
  assumes "\<forall>i \<in> set idx. 0 < i"
    and "ms_sink s = Some (ms_source s)"
    and "mirror_passes eng update_file rng env sz idx s = (log, Verdict True)"
  shows "map pr_index log = idx
     \<and> map pr_forward log = map pass_forward idx
     \<and> list_all (\<lambda>r. pr_sink r = Some (pr_source r)) log"
  using assms
proof (induction idx arbitrary: s log)
  case Nil
  then show ?case by simp
next
  case (Cons i rest)
  let ?fwd = "pass_forward i"
  from Cons.prems(1) have pos: "0 < i" by simp
  have target: "(if ?fwd then Some (ms_source s) else ms_sink s) = Some (ms_source s)"
    using Cons.prems(2) by simp
  obtain nd changed p where up:
    "update_file rng (ms_pos s) (pe_mmap_ok (env i)) (ms_source s) sz i = (nd, changed, p)"
    by (metis prod_cases3)
  obtain subpass received st where tt:
    "test_transfer eng (ms_engine s) ?fwd (pe_maps_ok (env i)) changed
       (if ?fwd then ms_sink s else Some (ms_source s)) nd = (subpass, received, st)"
    by (metis prod_cases3)
  let ?s' = "if ?fwd
             then \<lparr> ms_source = changed, ms_sink = received, ms_pos = p, ms_engine = st \<rparr>
             else \<lparr> ms_source = (case received of Some c \<Rightarrow> c | None \<Rightarrow> ms_source s),
                    ms_sink = Some changed, ms_pos = p, ms_engine = st \<rparr>"
  let ?rec = "\<lparr> pr_index = i, pr_forward = ?fwd, pr_ndiff = nd,
                pr_source = ms_source ?s', pr_sink = ms_sink ?s' \<rparr>"
  obtain log' res' where rest: "mirror_passes eng update_file rng env sz rest ?s' = (log', res')"
    by (metis prod.exhaust)
  from Cons.prems(3) pos target up tt rest
  have nd: "nd \<noteq> - 1" and sub: "subpass" and log: "log = ?rec # log'" and res: "res' = Verdict True"
    by (auto simp: Let_def emit_def split: if_splits)
  from update_file_result [OF up] nd have same: "nd = 0 \<longrightarrow> changed = ms_source s" by auto
  from tt sub test_transfer_passed [of eng "ms_engine s" ?fwd "pe_maps_ok (env i)" changed
      "if ?fwd then ms_sink s else Some (ms_source s)" nd received st]
  have recv: "if nd = 0 then received = (if ?fwd then ms_sink s else Some (ms_source s))
              else received = Some changed" by simp
  have inv: "ms_sink ?s' = Some (ms_source ?s')"
    using recv same Cons.prems(2) by (auto split: if_splits)
  from Cons.prems(1) have "\<forall>i \<in> set rest. 0 < i" by simp
  from Cons.IH [OF this inv] rest res
  have "map pr_index log' = rest \<and> map pr_forward log' = map pass_forward rest
     \<and> list_all (\<lambda>r. pr_sink r = Some (pr_source r)) log'" by simp
  with log inv show ?case by simp
qed


lemma empty_file_never_passes:
  assumes "ms_sink s = None"
    and "\<forall>i \<in> set idx. 0 < i"
    and "\<exists>i \<in> set idx. \<not> pass_forward i"
  shows "snd (mirror_passes eng update_file rng env 0 idx s) \<noteq> Verdict True"
  using assms
proof (induction idx arbitrary: s)
  case Nil
  then show ?case by simp
next
  case (Cons i rest)
  from Cons.prems(2) have pos: "0 < i" by simp
  show ?case
  proof (cases "pass_forward i")
    case False
    with Cons.prems(1) show ?thesis by simp
  next
    case True
    with Cons.prems(3) have later: "\<exists>i \<in> set rest. \<not> pass_forward i" by auto
    from Cons.prems(2) have allpos: "\<forall>i \<in> set rest. 0 < i" by simp
    obtain nd changed p where up:
      "update_file rng (ms_pos s) (pe_mmap_ok (env i)) (ms_source s) 0 i = (nd, changed, p)"
      by (metis prod_cases3)
    then have nd: "nd = 0 \<or> nd = - 1"
      by (auto simp: update_file_def split: if_splits)
    obtain subpass received st where tt:
      "test_transfer eng (ms_engine s) True (pe_maps_ok (env i)) changed (ms_sink s) nd
         = (subpass, received, st)"
      by (metis prod_cases3)
    show ?thesis
    proof (cases "nd = - 1 \<or> \<not> subpass")
      case True
      with \<open>pass_forward i\<close> pos up tt show ?thesis
        by (auto simp: Let_def)
    next
      case False
      with nd have z: "nd = 0" and sub: subpass by auto
      from tt z Cons.prems(1) have "received = None"
        by (auto simp: test_transfer_def split: prod.splits)
      then have "ms_sink \<lparr> ms_source = changed, ms_sink = received, ms_pos = p, ms_engine = st \<rparr> = None"
        by simp
      from Cons.IH [OF this allpos later] \<open>pass_forward i\<close> pos up tt z sub show ?thesis
        by (simp add: Let_def emit_def)
    qed
  qed
qed

lemma first_pass:
  assumes "test_mirror eng st rng pos env content n = (log, Verdict True)"
  shows "\<exists>s' log'. log = \<lparr> pr_index = 0, pr_forward = True, pr_ndiff = int n,
                               pr_source = content, pr_sink = Some content \<rparr> # log'
            \<and> ms_source s' = content \<and> ms_sink s' = Some content
            \<and> mirror_passes eng update_file rng env n [1, 2, 3, 4] s' = (log', Verdict True)"
proof -
  obtain subpass received st1 where tt:
    "test_transfer eng st True (pe_maps_ok (env 0)) content None (int n) = (subpass, received, st1)"
    by (metis prod_cases3)
  let ?s' = "\<lparr> ms_source = content, ms_sink = received, ms_pos = pos, ms_engine = st1 \<rparr>"
  obtain log' res' where rest:
    "mirror_passes eng update_file rng env n [1, 2, 3, 4] ?s' = (log', res')"
    by (metis prod.exhaust)
  from assms tt rest
  have sub: subpass and log: "log = \<lparr> pr_index = 0, pr_forward = True, pr_ndiff = int n,
                               pr_source = content, pr_sink = received \<rparr> # log'"
    and res: "res' = Verdict True"
    by (auto simp: test_mirror_def pass_forward_def Let_def emit_def split: if_splits)
  have "n \<noteq> 0"
  proof
    assume n: "n = 0"
    with tt have "received = None"
      by (auto simp: test_transfer_def split: prod.splits)
    then have "ms_sink ?s' = None" by simp
    moreover have "\<forall>i \<in> set [1, 2, 3, 4 :: int]. 0 < i" by simp
    moreover have "\<exists>i \<in> set [1, 2, 3, 4 :: int]. \<not> pass_forward i"
      by (simp add: pass_forward_def)
    ultimately have "snd (mirror_passes eng update_file rng env 0 [1, 2, 3, 4] ?s') \<noteq> Verdict True"
      by (rule empty_file_never_passes)
    with rest res n show False by simp
  qed
  with tt sub test_transfer_passed [of eng st True "pe_maps_ok (env 0)" content None
      "int n" received st1]
  have "received = Some content" by simp
  with log rest res show ?thesis
    by (intro exI [of _ ?s'] exI [of _ log']) simp
qed





end
